theory Spec2Isabelle
  imports Complex_Main "HOL-Library.Word" "HOL-Library.Sublist"
begin

section \<open>Values\<close>

text \<open>
  Go's \<open>int64\<close> is a 64-bit word read as two's complement; Go's \<open>int\<close> has the same
  width on the 64-bit platforms the program is built for. Go's \<open>error\<close> is a message.
\<close>

type_synonym int64 = "64 word"

datatype error = Err string

text \<open>
  A finite \<open>float64\<close> is held as the rational number it denotes. Every arithmetic
  result is rounded to 53 significant bits, to the nearest value, ties to the even
  significand (IEEE 754 binary64, default rounding). The magnitudes that occur here
  (conversions of 64-bit integers, quotients by 100000, counters) lie between
  \<open>1 / 100000\<close> and \<open>2 ^ 64\<close>, far inside the normal range, so neither
  overflow nor subnormal numbers are modelled.
\<close>

type_synonym float64 = rat

text \<open>The number of bits of a positive integer (0 for the others).\<close>

function bitlen :: "int \<Rightarrow> nat" where
  "bitlen n = (if n \<le> 0 then 0 else Suc (bitlen (n div 2)))"
  by pat_completeness auto
termination
  by (relation "measure nat") auto

declare bitlen.simps [simp del]

text \<open>
  The binary exponent \<open>e\<close> of a non-zero \<open>x\<close>, with \<open>2 ^ e \<le> |x| < 2 ^ (e + 1)\<close>,
  from the bit length of the integer part of \<open>|x|\<close> or of \<open>1 / |x|\<close>. The value
  nearest to \<open>x\<close> is then a multiple of the unit \<open>2 ^ (e - 52)\<close>.
\<close>

definition f64_exponent :: "rat \<Rightarrow> int" where
  "f64_exponent x =
     (let a = \<bar>x\<bar> in
      if 1 \<le> a then int (bitlen \<lfloor>a\<rfloor>) - 1
      else - int (bitlen (\<lceil>1 / a\<rceil> - 1)))"

definition round_half_even :: "rat \<Rightarrow> int" where
  "round_half_even q =
     (let f = \<lfloor>q\<rfloor>; r = q - of_int f in
      if r < 1 / 2 then f
      else if 1 / 2 < r then f + 1
      else if even f then f else f + 1)"

definition f64_round :: "rat \<Rightarrow> float64" where
  "f64_round x =
     (if x = 0 then 0
      else let u = 2 powi (f64_exponent x - 52)
           in of_int (round_half_even (x / u)) * u)"

text \<open>\<open>float64(n)\<close> for an integer \<open>n\<close>, and the operators \<open>/\<close> and \<open>+\<close>.\<close>

definition f64_of_int :: "int \<Rightarrow> float64" where
  "f64_of_int n = f64_round (of_int n)"

definition f64_div :: "float64 \<Rightarrow> float64 \<Rightarrow> float64" where
  "f64_div a b = f64_round (a / b)"

definition f64_add :: "float64 \<Rightarrow> float64 \<Rightarrow> float64" where
  "f64_add a b = f64_round (a + b)"

section \<open>Strings (package strings)\<close>

text \<open>
  A Go string is a sequence of bytes. \<open>strings.Split(s, sep)\<close> for a one-byte
  separator: the pieces between the separators, one piece more than there are
  separators (so the empty string splits into one empty piece).
\<close>

fun strings_Split :: "string \<Rightarrow> char \<Rightarrow> string list" where
  "strings_Split [] sep = [[]]"
| "strings_Split (ch # s) sep =
     (if ch = sep then [] # strings_Split s sep
      else (case strings_Split s sep of [] \<Rightarrow> [[ch]] | l # ls \<Rightarrow> (ch # l) # ls))"

definition newline :: char where
  "newline = CHR 0x0A"

definition strings_HasPrefix :: "string \<Rightarrow> string \<Rightarrow> bool" where
  "strings_HasPrefix s pre = prefix pre s"

definition strings_TrimPrefix :: "string \<Rightarrow> string \<Rightarrow> string" where
  "strings_TrimPrefix s pre = (if strings_HasPrefix s pre then drop (length pre) s else s)"

fun strings_Contains :: "string \<Rightarrow> string \<Rightarrow> bool" where
  "strings_Contains [] substr = (substr = [])"
| "strings_Contains (ch # s) substr = (prefix substr (ch # s) \<or> strings_Contains s substr)"

text \<open>
  \<open>strings.TrimSpace\<close> removes leading and trailing white space as Unicode defines
  it (\<open>unicode.IsSpace\<close>): the six ASCII characters tab, line feed, vertical tab,
  form feed, carriage return and space, and U+0085, U+00A0, U+1680, U+2000 to U+200A,
  U+2028, U+2029, U+202F, U+205F and U+3000, here in their UTF-8 encodings. A byte
  sequence that is no such encoding stops the trimming, as Go's decoder reads it as
  a character that is not white space.
\<close>

definition unicodeSpaces :: "string list" where
  "unicodeSpaces =
     [[CHR 0x09], [CHR 0x0A], [CHR 0x0B], [CHR 0x0C], [CHR 0x0D], [CHR 0x20],
      [CHR 0xC2, CHR 0x85], [CHR 0xC2, CHR 0xA0],
      [CHR 0xE1, CHR 0x9A, CHR 0x80],
      [CHR 0xE2, CHR 0x80, CHR 0x80], [CHR 0xE2, CHR 0x80, CHR 0x81],
      [CHR 0xE2, CHR 0x80, CHR 0x82], [CHR 0xE2, CHR 0x80, CHR 0x83],
      [CHR 0xE2, CHR 0x80, CHR 0x84], [CHR 0xE2, CHR 0x80, CHR 0x85],
      [CHR 0xE2, CHR 0x80, CHR 0x86], [CHR 0xE2, CHR 0x80, CHR 0x87],
      [CHR 0xE2, CHR 0x80, CHR 0x88], [CHR 0xE2, CHR 0x80, CHR 0x89],
      [CHR 0xE2, CHR 0x80, CHR 0x8A],
      [CHR 0xE2, CHR 0x80, CHR 0xA8], [CHR 0xE2, CHR 0x80, CHR 0xA9],
      [CHR 0xE2, CHR 0x80, CHR 0xAF], [CHR 0xE2, CHR 0x81, CHR 0x9F],
      [CHR 0xE3, CHR 0x80, CHR 0x80]]"

function trimLeading :: "string list \<Rightarrow> string \<Rightarrow> string" where
  "trimLeading seqs s =
     (case find (\<lambda>p. p \<noteq> [] \<and> prefix p s) seqs of
        None \<Rightarrow> s
      | Some p \<Rightarrow> trimLeading seqs (drop (length p) s))"
  by pat_completeness auto
termination
  by (relation "measure (\<lambda>(seqs, s). length s)") (auto simp: find_Some_iff prefix_def)

declare trimLeading.simps [simp del]

definition strings_TrimSpace :: "string \<Rightarrow> string" where
  "strings_TrimSpace s =
     rev (trimLeading (map rev unicodeSpaces) (rev (trimLeading unicodeSpaces s)))"

section \<open>The metrics registry (package prometheus)\<close>

text \<open>
  A \<open>GaugeVec\<close> with the single label \<open>address\<close> maps a label value to the
  gauge's value; a label that was never used has no child yet. \<open>Set\<close> stores a
  value, \<open>Inc\<close> adds 1 to the value (0 for a new child).
\<close>

type_synonym gauge_vec = "string \<rightharpoonup> float64"

definition gauge_Set :: "gauge_vec \<Rightarrow> string \<Rightarrow> float64 \<Rightarrow> gauge_vec" where
  "gauge_Set g address v = g(address \<mapsto> v)"

definition gauge_Inc :: "gauge_vec \<Rightarrow> string \<Rightarrow> gauge_vec" where
  "gauge_Inc g address =
     g(address \<mapsto> f64_add (case g address of None \<Rightarrow> 0 | Some v \<Rightarrow> v) 1)"

text \<open>
  \<open>WithLabelValues\<close> returns the child of a label value and makes it, at 0, when
  there is none yet; \<open>Set\<close> and \<open>Inc\<close> above work on the child it returns.
\<close>

definition gauge_WithLabelValues :: "gauge_vec \<Rightarrow> string \<Rightarrow> gauge_vec" where
  "gauge_WithLabelValues g address =
     (case g address of None \<Rightarrow> g(address \<mapsto> 0) | Some v \<Rightarrow> g)"

record metrics =
  NimiqEpochNumberGauge :: float64
  NimiqValidatorBalanceGauge :: gauge_vec
  NimiqTotalStakeGauge :: gauge_vec
  ValidatorBalanceGauge :: gauge_vec
  ValidatorNumStakersGauge :: gauge_vec
  ValidatorInactivityFlagGauge :: gauge_vec
  ValidatorRetiredGauge :: gauge_vec
  ValidatorJailedGauge :: gauge_vec
  ValidatorJailedFromGauge :: gauge_vec
  ValidatorActivatedGauge :: gauge_vec
  ValidatorActivatedCounterGauge :: gauge_vec
  ValidatorReActivatedCounterGauge :: gauge_vec

section \<open>The environment: node, key files, faucet\<close>

record ValidatorDetails =
  Address :: string
  Balance :: int64
  NumStakers :: int64
  InactivityFlag :: "int64 option"
  Retired :: bool
  JailedFrom :: "int64 option"

text \<open>
  Everything outside the process is a state machine over a state \<open>'n\<close> the program
  cannot see: every request (a JSON-RPC call to the node, a file read, a form post to
  the faucet) takes the state, answers, and leaves a new state, so that two equal
  requests may be answered differently. The answer of an RPC method is the error of
  the transport, of the RPC or of decoding (\<open>Inl\<close>), or the \<open>data\<close> field of the
  result decoded into the method's Go type (\<open>Inr\<close>). For \<open>getValidatorByAddress\<close>
  the field is a pointer, \<open>nil\<close> when the reply carries no record.
\<close>

record 'n env =
  isConsensusEstablished :: "'n \<Rightarrow> (error + bool) \<times> 'n"
  getEpochNumber :: "'n \<Rightarrow> (error + int64) \<times> 'n"
  getAccountByAddress :: "string \<Rightarrow> 'n \<Rightarrow> (error + int64) \<times> 'n"
  getValidatorByAddress :: "string \<Rightarrow> 'n \<Rightarrow> (error + ValidatorDetails option) \<times> 'n"
  getBlockNumber :: "'n \<Rightarrow> (error + int64) \<times> 'n"
  importRawKey :: "string \<Rightarrow> string \<Rightarrow> 'n \<Rightarrow> (error + string) \<times> 'n"
  unlockAccount :: "string \<Rightarrow> string \<Rightarrow> int \<Rightarrow> 'n \<Rightarrow> (error + bool) \<times> 'n"
  sendNewValidatorTransaction ::
    "string \<Rightarrow> string \<Rightarrow> string \<Rightarrow> string \<Rightarrow> string \<Rightarrow> string \<Rightarrow> int \<Rightarrow> string \<Rightarrow> 'n
      \<Rightarrow> (error + string) \<times> 'n"
  sendReactivateValidatorTransaction ::
    "string \<Rightarrow> string \<Rightarrow> string \<Rightarrow> int \<Rightarrow> string \<Rightarrow> 'n \<Rightarrow> (error + string) \<times> 'n"
  sendRawTransaction :: "string \<Rightarrow> 'n \<Rightarrow> (error + string) \<times> 'n"
  osReadFile :: "string \<Rightarrow> 'n \<Rightarrow> (error + string) \<times> 'n"
  httpPostForm :: "string \<Rightarrow> string \<Rightarrow> 'n \<Rightarrow> (error + int) \<times> 'n"

text \<open>
  The trace lists, in order, what the process did that can be seen from outside or
  that the specification speaks of: requests to the node with their parameters, file
  reads, form posts, sleeps (in seconds), and the entries into \<open>activateValidator\<close>
  and \<open>reActivateValidator\<close>. Log output is not modelled.
\<close>

datatype param = PStr string | PInt int

datatype event =
    Rpc string "param list"
  | ReadFile string
  | PostForm string string
  | Sleep nat
  | Call string string

record 'n world =
  outside :: 'n
  registry :: metrics
  trace :: "event list"

definition emit :: "event \<Rightarrow> 'n world \<Rightarrow> 'n world" where
  "emit e w = w\<lparr>trace := trace w @ [e]\<rparr>"

text \<open>One request: the environment answers and moves on, the trace grows by one event.\<close>

definition request ::
  "('n \<Rightarrow> 'a \<times> 'n) \<Rightarrow> event \<Rightarrow> 'n world \<Rightarrow> 'a \<times> 'n world" where
  "request q e w = (case q (outside w) of (r, n) \<Rightarrow> (r, emit e (w\<lparr>outside := n\<rparr>)))"

text \<open>The events a run from \<open>w\<close> to \<open>w'\<close> added.\<close>

definition emitted :: "'n world \<Rightarrow> 'n world \<Rightarrow> event list" where
  "emitted w w' = drop (length (trace w)) (trace w')"

text \<open>An update of the registry, such as \<open>G.WithLabelValues(address).Set(v)\<close>.\<close>

definition publish :: "(metrics \<Rightarrow> metrics) \<Rightarrow> 'n world \<Rightarrow> 'n world" where
  "publish f w = w\<lparr>registry := f (registry w)\<rparr>"

text \<open>
  A function that dereferences a pointer either returns or panics on \<open>nil\<close>; the
  panic is not recovered anywhere, so it ends the process.
\<close>

datatype 'a outcome = Returned 'a | Panicked

section \<open>The RPC client (package rpc)\<close>

definition IsConsensusEstablished :: "'n env \<Rightarrow> 'n world \<Rightarrow> (error + bool) \<times> 'n world" where
  "IsConsensusEstablished c w =
     request (isConsensusEstablished c) (Rpc ''isConsensusEstablished'' []) w"

definition GetEpochNumber :: "'n env \<Rightarrow> 'n world \<Rightarrow> (error + int64) \<times> 'n world" where
  "GetEpochNumber c w = request (getEpochNumber c) (Rpc ''getEpochNumber'' []) w"

definition GetAccountBalanceByAddress ::
  "'n env \<Rightarrow> string \<Rightarrow> 'n world \<Rightarrow> (error + int64) \<times> 'n world" where
  "GetAccountBalanceByAddress c address w =
     request (getAccountByAddress c address) (Rpc ''getAccountByAddress'' [PStr address]) w"

definition GetValidatorByAddress ::
  "'n env \<Rightarrow> string \<Rightarrow> 'n world \<Rightarrow> (error + ValidatorDetails option) \<times> 'n world" where
  "GetValidatorByAddress c address w =
     request (getValidatorByAddress c address) (Rpc ''getValidatorByAddress'' [PStr address]) w"

definition ImportRawKey ::
  "'n env \<Rightarrow> string \<Rightarrow> string \<Rightarrow> 'n world \<Rightarrow> (error + string) \<times> 'n world" where
  "ImportRawKey c privateKey passphrase w =
     (case request (importRawKey c privateKey passphrase)
             (Rpc ''importRawKey'' [PStr privateKey, PStr passphrase]) w of
        (Inl err, w1) \<Rightarrow> (Inl err, w1)
      | (Inr data, w1) \<Rightarrow>
          if data = [] then (Inl (Err ''failed to import key, no address returned''), w1)
          else (Inr data, w1))"

definition GetCurrentBlockNumber :: "'n env \<Rightarrow> 'n world \<Rightarrow> (error + int64) \<times> 'n world" where
  "GetCurrentBlockNumber c w = request (getBlockNumber c) (Rpc ''getBlockNumber'' []) w"

definition UnlockAccount ::
  "'n env \<Rightarrow> string \<Rightarrow> string \<Rightarrow> int \<Rightarrow> 'n world \<Rightarrow> (error + unit) \<times> 'n world" where
  "UnlockAccount c address passphrase duration w =
     (case request (unlockAccount c address passphrase duration)
             (Rpc ''unlockAccount'' [PStr address, PStr passphrase, PInt duration]) w of
        (Inl err, w1) \<Rightarrow> (Inl err, w1)
      | (Inr data, w1) \<Rightarrow>
          if \<not> data then (Inl (Err ''failed to unlock account''), w1) else (Inr (), w1))"

definition SendNewValidatorTransaction ::
  "'n env \<Rightarrow> string \<Rightarrow> string \<Rightarrow> string \<Rightarrow> string \<Rightarrow> string \<Rightarrow> string \<Rightarrow> int \<Rightarrow> string
     \<Rightarrow> 'n world \<Rightarrow> (error + string) \<times> 'n world" where
  "SendNewValidatorTransaction c senderAddress validatorAddress signingSecretKey
       votingSecretKey rewardAddress signalData feeInLuna validityStartHeight w =
     request
       (sendNewValidatorTransaction c senderAddress validatorAddress signingSecretKey
          votingSecretKey rewardAddress signalData feeInLuna validityStartHeight)
       (Rpc ''sendNewValidatorTransaction''
          [PStr senderAddress, PStr validatorAddress, PStr signingSecretKey,
           PStr votingSecretKey, PStr rewardAddress, PStr signalData, PInt feeInLuna,
           PStr validityStartHeight]) w"

definition SendReactivateValidatorTransaction ::
  "'n env \<Rightarrow> string \<Rightarrow> string \<Rightarrow> string \<Rightarrow> int \<Rightarrow> string
     \<Rightarrow> 'n world \<Rightarrow> (error + string) \<times> 'n world" where
  "SendReactivateValidatorTransaction c senderAddress validatorAddress signingSecretKey
       feeInLuna validityStartHeight w =
     request
       (sendReactivateValidatorTransaction c senderAddress validatorAddress
          signingSecretKey feeInLuna validityStartHeight)
       (Rpc ''sendReactivateValidatorTransaction''
          [PStr senderAddress, PStr validatorAddress, PStr signingSecretKey,
           PInt feeInLuna, PStr validityStartHeight]) w"

definition SendRawTransaction ::
  "'n env \<Rightarrow> string \<Rightarrow> 'n world \<Rightarrow> (error + string) \<times> 'n world" where
  "SendRawTransaction c rawTx w =
     request (sendRawTransaction c rawTx) (Rpc ''sendRawTransaction'' [PStr rawTx]) w"

section \<open>package main\<close>

subsection \<open>checkConsensus\<close>

definition maxAttempts :: nat where
  "maxAttempts = 3"

function checkConsensus_loop ::
  "'n env \<Rightarrow> nat \<Rightarrow> nat \<Rightarrow> 'n world \<Rightarrow> bool \<times> 'n world" where
  "checkConsensus_loop c attempt successfulChecks w =
     (if attempt \<le> maxAttempts then
        (case IsConsensusEstablished c w of
           (Inl err, w1) \<Rightarrow> (False, emit (Sleep 60) w1)
         | (Inr consensus, w1) \<Rightarrow>
             if consensus then
               checkConsensus_loop c (attempt + 1) (successfulChecks + 1)
                 (if attempt < maxAttempts then emit (Sleep 5) w1 else w1)
             else (False, w1))
      else (successfulChecks = maxAttempts, w))"
  by pat_completeness auto
termination
  by (relation "measure (\<lambda>(c, attempt, successfulChecks, w). maxAttempts + 1 - attempt)") auto

declare checkConsensus_loop.simps [simp del]

definition checkConsensus :: "'n env \<Rightarrow> 'n world \<Rightarrow> bool \<times> 'n world" where
  "checkConsensus c w = checkConsensus_loop c 1 0 w"

subsection \<open>updateEpochNumberGauge\<close>

definition updateEpochNumberGauge :: "'n env \<Rightarrow> 'n world \<Rightarrow> 'n world" where
  "updateEpochNumberGauge c w =
     (case GetEpochNumber c w of
        (Inl err, w1) \<Rightarrow> w1
      | (Inr epochNumber, w1) \<Rightarrow>
          publish (NimiqEpochNumberGauge_update (\<lambda>_. f64_of_int (sint epochNumber))) w1)"

subsection \<open>getPrivateKey, getVoteKey\<close>

text \<open>The loop of \<open>getPrivateKey\<close> over the lines of the file.\<close>

fun getPrivateKey_lines :: "string list \<Rightarrow> error + string" where
  "getPrivateKey_lines [] = Inl (Err ''private key not found in file'')"
| "getPrivateKey_lines (line # lines) =
     (if strings_HasPrefix line ''Private Key:''
      then Inr (strings_TrimSpace (strings_TrimPrefix line ''Private Key:''))
      else getPrivateKey_lines lines)"

definition getPrivateKey ::
  "'n env \<Rightarrow> string \<Rightarrow> 'n world \<Rightarrow> (error + string) \<times> 'n world" where
  "getPrivateKey c filePath w =
     (case request (osReadFile c filePath) (ReadFile filePath) w of
        (Inl err, w1) \<Rightarrow> (Inl err, w1)
      | (Inr content, w1) \<Rightarrow> (getPrivateKey_lines (strings_Split content newline), w1))"

text \<open>The loop of \<open>getVoteKey\<close>, from index \<open>i\<close> on.\<close>

function getVoteKey_lines :: "string list \<Rightarrow> nat \<Rightarrow> error + string" where
  "getVoteKey_lines lines i =
     (if i < length lines then
        (if strings_Contains (lines ! i) ''Secret Key:'' \<and> i + 2 < length lines
         then Inr (strings_TrimSpace (lines ! (i + 2)))
         else getVoteKey_lines lines (i + 1))
      else Inl (Err ''vote key not found in file''))"
  by pat_completeness auto
termination
  by (relation "measure (\<lambda>(lines, i). length lines - i)") auto

declare getVoteKey_lines.simps [simp del]

definition getVoteKey ::
  "'n env \<Rightarrow> string \<Rightarrow> 'n world \<Rightarrow> (error + string) \<times> 'n world" where
  "getVoteKey c filePath w =
     (case request (osReadFile c filePath) (ReadFile filePath) w of
        (Inl err, w1) \<Rightarrow> (Inl err, w1)
      | (Inr content, w1) \<Rightarrow> (getVoteKey_lines (strings_Split content newline) 0, w1))"

subsection \<open>fundAddress\<close>

text \<open>The package variables set by \<open>init\<close> from the process environment.\<close>

record config =
  faucetURL :: string
  network :: string

definition fundAddress :: "config \<Rightarrow> 'n env \<Rightarrow> string \<Rightarrow> 'n world \<Rightarrow> bool \<times> 'n world" where
  "fundAddress cfg c address w =
     (case request (httpPostForm c (faucetURL cfg) address)
             (PostForm (faucetURL cfg) address) w of
        (Inl err, w1) \<Rightarrow> (False, w1)
      | (Inr statusCode, w1) \<Rightarrow> if statusCode \<noteq> 200 then (False, w1) else (True, w1))"

subsection \<open>activateValidator, reActivateValidator\<close>

definition activateValidator :: "'n env \<Rightarrow> string \<Rightarrow> 'n world \<Rightarrow> bool \<times> 'n world" where
  "activateValidator c address w0 =
     (case getPrivateKey c ''/keys/signing_key.txt'' (emit (Call ''activateValidator'' address) w0) of
        (Inl err, w1) \<Rightarrow> (False, w1)
      | (Inr sigKey, w1) \<Rightarrow>
     (case getVoteKey c ''/keys/vote_key.txt'' w1 of
        (Inl err, w2) \<Rightarrow> (False, w2)
      | (Inr voteKey, w2) \<Rightarrow>
     (case getPrivateKey c ''/keys/address.txt'' w2 of
        (Inl err, w3) \<Rightarrow> (False, w3)
      | (Inr addressPrivate, w3) \<Rightarrow>
     (case ImportRawKey c addressPrivate [] w3 of
        (Inl err, w4) \<Rightarrow> (False, w4)
      | (Inr imported, w4) \<Rightarrow>
     (case UnlockAccount c address [] 0 w4 of
        (Inl err, w5) \<Rightarrow> (False, w5)
      | (Inr unlocked, w5) \<Rightarrow>
     (case SendNewValidatorTransaction c address address sigKey voteKey address [] 500 ''+0'' w5 of
        (Inl err, w6) \<Rightarrow> (False, w6)
      | (Inr rawTx, w6) \<Rightarrow>
     (case SendRawTransaction c rawTx w6 of
        (Inl err, w7) \<Rightarrow> (False, w7)
      | (Inr txHash, w7) \<Rightarrow>
          (True,
           publish (ValidatorActivatedCounterGauge_update (\<lambda>g. gauge_Inc g address))
             (publish (ValidatorActivatedGauge_update (\<lambda>g. gauge_Set g address 1)) w7)))))))))"

definition reActivateValidator :: "'n env \<Rightarrow> string \<Rightarrow> 'n world \<Rightarrow> bool \<times> 'n world" where
  "reActivateValidator c address w0 =
     (case getPrivateKey c ''/keys/signing_key.txt'' (emit (Call ''reActivateValidator'' address) w0) of
        (Inl err, w1) \<Rightarrow> (False, w1)
      | (Inr sigKey, w1) \<Rightarrow>
     (case getPrivateKey c ''/keys/address.txt'' w1 of
        (Inl err, w2) \<Rightarrow> (False, w2)
      | (Inr addressPrivate, w2) \<Rightarrow>
     (case ImportRawKey c addressPrivate [] w2 of
        (Inl err, w3) \<Rightarrow> (False, w3)
      | (Inr imported, w3) \<Rightarrow>
     (case UnlockAccount c address [] 0 w3 of
        (Inl err, w4) \<Rightarrow> (False, w4)
      | (Inr unlocked, w4) \<Rightarrow>
     (case SendReactivateValidatorTransaction c address address sigKey 500 ''+0'' w4 of
        (Inl err, w5) \<Rightarrow> (False, w5)
      | (Inr txHash, w5) \<Rightarrow>
          (True,
           publish (ValidatorReActivatedCounterGauge_update (\<lambda>g. gauge_Inc g address)) w5))))))"

subsection \<open>updateValidatorMetrics\<close>

definition updateValidatorMetrics :: "string \<Rightarrow> ValidatorDetails \<Rightarrow> 'n world \<Rightarrow> 'n world" where
  "updateValidatorMetrics address details w =
     (let inactivityFlag =
            (case InactivityFlag details of None \<Rightarrow> 0 | Some v \<Rightarrow> f64_of_int (sint v));
          retired = (if Retired details then 1 else 0);
          jailedFrom =
            (case JailedFrom details of None \<Rightarrow> 0 | Some v \<Rightarrow> f64_of_int (sint v))
      in publish (ValidatorActivatedGauge_update (\<lambda>g. gauge_Set g address 1))
        (publish (ValidatorJailedFromGauge_update (\<lambda>g. gauge_Set g address jailedFrom))
        (publish (ValidatorRetiredGauge_update (\<lambda>g. gauge_Set g address retired))
        (publish (ValidatorInactivityFlagGauge_update (\<lambda>g. gauge_Set g address inactivityFlag))
        (publish (ValidatorNumStakersGauge_update
                    (\<lambda>g. gauge_Set g address (f64_of_int (sint (NumStakers details)))))
        (publish (NimiqTotalStakeGauge_update
                    (\<lambda>g. gauge_Set g address (f64_of_int (sint (Balance details)))))
           w))))))"

text \<open>
  The call with a nil record: the first statement takes the child of the total-stake
  gauge for the address, then reads \<open>details.Balance\<close> and panics. What the call
  leaves behind is that child, at 0 when it was new.
\<close>

definition updateValidatorMetrics_nil :: "string \<Rightarrow> 'n world \<Rightarrow> 'n world" where
  "updateValidatorMetrics_nil address w =
     publish (NimiqTotalStakeGauge_update (\<lambda>g. gauge_WithLabelValues g address)) w"

subsection \<open>checkSufficientBalance, checkActive\<close>

definition checkSufficientBalance ::
  "'n env \<Rightarrow> string \<Rightarrow> 'n world \<Rightarrow> (bool \<times> float64) \<times> 'n world" where
  "checkSufficientBalance c address w =
     (case GetAccountBalanceByAddress c address w of
        (Inl err, w1) \<Rightarrow> ((False, 0), w1)
      | (Inr balance, w1) \<Rightarrow>
          (let balanceInNim = f64_div (f64_of_int (sint balance)) 100000
           in ((100000 \<le> balanceInNim, balanceInNim),
               publish (ValidatorBalanceGauge_update
                          (\<lambda>g. gauge_Set g address (f64_of_int (sint balance)))) w1)))"

definition checkActive :: "'n env \<Rightarrow> string \<Rightarrow> 'n world \<Rightarrow> bool outcome \<times> 'n world" where
  "checkActive c address w =
     (case GetValidatorByAddress c address w of
        (Inl err, w1) \<Rightarrow> (Returned False, w1)
      | (Inr None, w1) \<Rightarrow> (Panicked, w1)
      | (Inr (Some validatorDetails), w1) \<Rightarrow>
          if Address validatorDetails \<noteq> address then (Returned False, w1)
          else (Returned (Address validatorDetails = address), w1))"

subsection \<open>checkAndHandleValidatorStatus\<close>

definition blocksForReactivation :: int64 where
  "blocksForReactivation = 8000"

definition checkAndHandleValidatorStatus ::
  "'n env \<Rightarrow> string \<Rightarrow> 'n world \<Rightarrow> bool outcome \<times> 'n world" where
  "checkAndHandleValidatorStatus c address w =
     (case GetValidatorByAddress c address w of
        (Inl err, w1) \<Rightarrow>
          (case activateValidator c address w1 of (activated, w2) \<Rightarrow> (Returned False, w2))
      | (Inr None, w1) \<Rightarrow> (Panicked, updateValidatorMetrics_nil address w1)
      | (Inr (Some details), w1) \<Rightarrow>
          (let w2 = updateValidatorMetrics address details w1 in
           if Retired details then
             (case reActivateValidator c address w2 of
                (reactivated, w3) \<Rightarrow> (Returned False, w3))
           else
             (case GetCurrentBlockNumber c w2 of
                (Inl err, w3) \<Rightarrow> (Returned False, w3)
              | (Inr currentBlockNumber, w3) \<Rightarrow>
                  (let w4 =
                     (case JailedFrom details of
                        None \<Rightarrow> w3
                      | Some jailedFrom \<Rightarrow>
                          (let blocksSinceJailed = currentBlockNumber - jailedFrom in
                           if blocksSinceJailed <s blocksForReactivation then
                             publish (ValidatorJailedFromGauge_update
                                        (\<lambda>g. gauge_Set g address (f64_of_int (sint jailedFrom))))
                               (publish (ValidatorJailedGauge_update
                                           (\<lambda>g. gauge_Set g address 1)) w3)
                           else
                             publish (ValidatorJailedGauge_update
                                        (\<lambda>g. gauge_Set g address 0)) w3))
                   in (Returned True,
                       publish (ValidatorJailedFromGauge_update (\<lambda>g. gauge_Set g address 0))
                         (publish (ValidatorJailedGauge_update (\<lambda>g. gauge_Set g address 0))
                            w4))))))"

subsection \<open>One tick of periodicUpdates and of the loop of main\<close>

text \<open>
  The body of the loop of \<open>periodicUpdates\<close>, run at every tick of its 10-second
  ticker; the result says whether the loop is left (\<open>return\<close>).
\<close>

definition periodicUpdates_tick ::
  "config \<Rightarrow> 'n env \<Rightarrow> string \<Rightarrow> 'n world \<Rightarrow> bool outcome \<times> 'n world" where
  "periodicUpdates_tick cfg c address w =
     (case checkSufficientBalance c address w of
        ((sufficient, currentBalance), w1) \<Rightarrow>
     (case checkActive c address w1 of
        (Panicked, w2) \<Rightarrow> (Panicked, w2)
      | (Returned isActive, w2) \<Rightarrow>
          if sufficient \<or> isActive then
            (case checkAndHandleValidatorStatus c address w2 of
               (Panicked, w3) \<Rightarrow> (Panicked, w3)
             | (Returned handled, w3) \<Rightarrow> (Returned handled, w3))
          else if network cfg = ''testnet'' then
            (case fundAddress cfg c address w2 of (funded, w3) \<Rightarrow> (Returned False, w3))
          else (Returned False, w2)))"

text \<open>
  The body of the loop at the end of \<open>main\<close>, run at every tick of its 15-second
  ticker; the loop is never left, the result is \<open>state\<close>.
\<close>

definition main_tick :: "'n env \<Rightarrow> string \<Rightarrow> 'n world \<Rightarrow> bool outcome \<times> 'n world" where
  "main_tick c validatorAddress w =
     (case checkAndHandleValidatorStatus c validatorAddress (updateEpochNumberGauge c w) of
        (Panicked, w2) \<Rightarrow> (Panicked, w2)
      | (Returned state, w2) \<Rightarrow>
          (case checkSufficientBalance c validatorAddress w2 of
             (checked, w3) \<Rightarrow> (Returned state, w3)))"

subsection \<open>An environment with fixed answers\<close>

text \<open>
  For evaluating the functions on concrete inputs: a node that answers every
  request the same way, whatever came before (the validator record, the block number
  and the account balance are given), three key files, and an empty registry.
\<close>

definition emptyRegistry :: metrics where
  "emptyRegistry =
     \<lparr>NimiqEpochNumberGauge = 0, NimiqValidatorBalanceGauge = Map.empty,
      NimiqTotalStakeGauge = Map.empty, ValidatorBalanceGauge = Map.empty,
      ValidatorNumStakersGauge = Map.empty, ValidatorInactivityFlagGauge = Map.empty,
      ValidatorRetiredGauge = Map.empty, ValidatorJailedGauge = Map.empty,
      ValidatorJailedFromGauge = Map.empty, ValidatorActivatedGauge = Map.empty,
      ValidatorActivatedCounterGauge = Map.empty,
      ValidatorReActivatedCounterGauge = Map.empty\<rparr>"

definition keyFiles :: "string \<Rightarrow> error + string" where
  "keyFiles path =
     (if path = ''/keys/signing_key.txt''
      then Inr (''Address: X'' @ [newline] @ ''Private Key:  abc '' @ [newline])
      else if path = ''/keys/address.txt'' then Inr ''Private Key: def''
      else if path = ''/keys/vote_key.txt''
      then Inr (''Secret Key:'' @ [newline] @ [newline] @ ''  ghi'' @ [newline])
      else Inl (Err ''no such file''))"

definition fixedEnv ::
  "(error + ValidatorDetails option) \<Rightarrow> (error + int64) \<Rightarrow> (error + int64) \<Rightarrow> unit env" where
  "fixedEnv validator blockNumber balance =
     \<lparr>isConsensusEstablished = (\<lambda>n. (Inr True, n)),
      getEpochNumber = (\<lambda>n. (Inr 7, n)),
      getAccountByAddress = (\<lambda>a n. (balance, n)),
      getValidatorByAddress = (\<lambda>a n. (validator, n)),
      getBlockNumber = (\<lambda>n. (blockNumber, n)),
      importRawKey = (\<lambda>k p n. (Inr ''NQ00'', n)),
      unlockAccount = (\<lambda>a p d n. (Inr True, n)),
      sendNewValidatorTransaction = (\<lambda>s v sk vk r sd f h n. (Inr ''rawtx'', n)),
      sendReactivateValidatorTransaction = (\<lambda>s v sk f h n. (Inr ''hash'', n)),
      sendRawTransaction = (\<lambda>t n. (Inr ''hash'', n)),
      osReadFile = (\<lambda>p n. (keyFiles p, n)),
      httpPostForm = (\<lambda>u a n. (Inr 200, n))\<rparr>"

definition startWorld :: "unit world" where
  "startWorld = \<lparr>outside = (), registry = emptyRegistry, trace = []\<rparr>"

text \<open>
  The registry as \<open>main\<close> leaves it for the address before the first evaluation:
  the activated gauge and the activation counter set to 0.
\<close>

definition bootWorld :: "unit world" where
  "bootWorld =
     startWorld\<lparr>registry := emptyRegistry
       \<lparr>ValidatorActivatedGauge := [''NQ00'' \<mapsto> 0],
        ValidatorActivatedCounterGauge := [''NQ00'' \<mapsto> 0]\<rparr>\<rparr>"

text \<open>
  A node that returns the same validator record at every fetch and whose first
  block-number query fails, the later ones succeeding; its state counts the
  block-number queries answered.
\<close>

definition flakyEnv :: "ValidatorDetails \<Rightarrow> int64 \<Rightarrow> nat env" where
  "flakyEnv validator blockNumber =
     \<lparr>isConsensusEstablished = (\<lambda>n. (Inr True, n)),
      getEpochNumber = (\<lambda>n. (Inr 7, n)),
      getAccountByAddress = (\<lambda>a n. (Inr 0, n)),
      getValidatorByAddress = (\<lambda>a n. (Inr (Some validator), n)),
      getBlockNumber =
        (\<lambda>n. (if n = 0 then Inl (Err ''timeout'') else Inr blockNumber, Suc n)),
      importRawKey = (\<lambda>k p n. (Inr ''NQ00'', n)),
      unlockAccount = (\<lambda>a p d n. (Inr True, n)),
      sendNewValidatorTransaction = (\<lambda>s v sk vk r sd f h n. (Inr ''rawtx'', n)),
      sendReactivateValidatorTransaction = (\<lambda>s v sk f h n. (Inr ''hash'', n)),
      sendRawTransaction = (\<lambda>t n. (Inr ''hash'', n)),
      osReadFile = (\<lambda>p n. (keyFiles p, n)),
      httpPostForm = (\<lambda>u a n. (Inr 200, n))\<rparr>"

definition flakyStart :: "nat world" where
  "flakyStart = \<lparr>outside = 0, registry = emptyRegistry, trace = []\<rparr>"

definition jailedRecord :: ValidatorDetails where
  "jailedRecord =
     \<lparr>Address = ''NQ00'', Balance = 5, NumStakers = 2, InactivityFlag = None,
      Retired = False, JailedFrom = Some 100\<rparr>"

definition retiredRecord :: ValidatorDetails where
  "retiredRecord = jailedRecord\<lparr>Retired := True\<rparr>"

definition activeRecord :: ValidatorDetails where
  "activeRecord = jailedRecord\<lparr>JailedFrom := None\<rparr>"

text \<open>The entries into \<open>activateValidator\<close> and \<open>reActivateValidator\<close> in a trace.\<close>

fun calls :: "event list \<Rightarrow> (string \<times> string) list" where
  "calls [] = []"
| "calls (Call f a # es) = (f, a) # calls es"
| "calls (e # es) = calls es"

section \<open>Properties\<close>

subsection \<open>Rounding to float64\<close>

lemma bitlen_bounds: "0 < n \<Longrightarrow> 2 ^ (bitlen n - 1) \<le> n \<and> n < 2 ^ bitlen n"
proof (induction n rule: bitlen.induct)
  case (1 n)
  show ?case
  proof (cases "n = 1")
    case True
    then show ?thesis by (simp add: bitlen.simps[of 1] bitlen.simps[of 0])
  next
    case False
    then have h: "0 < n div 2" using "1.prems" by simp
    have ih: "2 ^ (bitlen (n div 2) - 1) \<le> n div 2 \<and> n div 2 < 2 ^ bitlen (n div 2)"
      using "1.IH" "1.prems" h by simp
    have kpos: "0 < bitlen (n div 2)" using h by (simp add: bitlen.simps[of "n div 2"])
    have b: "bitlen n = Suc (bitlen (n div 2))" using "1.prems" by (simp add: bitlen.simps[of n])
    have p: "(2::int) ^ bitlen (n div 2) = 2 * 2 ^ (bitlen (n div 2) - 1)"
      using kpos by (cases "bitlen (n div 2)") simp_all
    show ?thesis unfolding b using ih p by simp linarith
  qed
qed

lemma bitlen_pos: "0 < n \<Longrightarrow> 0 < bitlen n"
  by (simp add: bitlen.simps[of n])

lemma pow_bounds_rat:
  fixes f :: int and k :: nat
  assumes "2 ^ (k - 1) \<le> f" "f < 2 ^ k"
  shows "(2::rat) ^ (k - 1) \<le> of_int f" and "of_int f + 1 \<le> (2::rat) ^ k"
proof -
  have "(of_int (2 ^ (k - 1)) :: rat) \<le> of_int f"
    using assms(1) by (simp only: of_int_le_iff)
  then show "(2::rat) ^ (k - 1) \<le> of_int f" by simp
  have "f + 1 \<le> 2 ^ k" using assms(2) by simp
  then have "(of_int (f + 1) :: rat) \<le> of_int (2 ^ k)" by (simp only: of_int_le_iff)
  then show "of_int f + 1 \<le> (2::rat) ^ k" by simp
qed

lemma f64_exponent_bounds:
  assumes "x \<noteq> 0"
  shows "2 powi (f64_exponent x) \<le> \<bar>x\<bar>" and "\<bar>x\<bar> < 2 powi (f64_exponent x + 1)"
proof -
  define a where "a = \<bar>x\<bar>"
  have apos: "0 < a" using assms by (simp add: a_def)
  have "2 powi (f64_exponent x) \<le> a \<and> a < 2 powi (f64_exponent x + 1)"
  proof (cases "1 \<le> a")
    case True
    define f where "f = \<lfloor>a\<rfloor>"
    define k where "k = bitlen f"
    have fpos: "0 < f" using True by (simp add: f_def)
    have b: "2 ^ (k - 1) \<le> f" "f < 2 ^ k"
      using bitlen_bounds[OF fpos] by (simp_all add: k_def)
    have kpos: "0 < k" using bitlen_pos[OF fpos] by (simp add: k_def)
    have e: "f64_exponent x = int k - 1"
      using True by (simp add: f64_exponent_def a_def[symmetric] Let_def f_def k_def)
    have fa: "of_int f \<le> a" "a < of_int f + 1"
      unfolding f_def using floor_correct[of a] by simp_all
    have p1: "2 powi (int k - 1) = (2::rat) ^ (k - 1)"
    proof -
      have "int k - 1 = int (k - 1)" using kpos by simp
      then show ?thesis by (simp only: power_int_of_nat)
    qed
    have p2: "2 powi (int k - 1 + 1) = (2::rat) ^ k" by simp
    show ?thesis
      unfolding e p1 p2 using fa pow_bounds_rat[OF b] by linarith
  next
    case False
    define y where "y = 1 / a"
    define m where "m = \<lceil>y\<rceil> - 1"
    define k where "k = bitlen m"
    have y1: "1 < y" using False apos by (simp add: y_def)
    have c2: "2 \<le> \<lceil>y\<rceil>" using y1 by (simp add: le_ceiling_iff)
    have mpos: "0 < m" using c2 by (simp add: m_def)
    have b: "2 ^ (k - 1) \<le> m" "m < 2 ^ k"
      using bitlen_bounds[OF mpos] by (simp_all add: k_def)
    have kpos: "0 < k" using bitlen_pos[OF mpos] by (simp add: k_def)
    have e: "f64_exponent x = - int k"
      using False by (simp add: f64_exponent_def a_def[symmetric] Let_def m_def k_def y_def)
    have my: "of_int m < y" "y \<le> of_int m + 1"
      unfolding m_def using ceiling_correct[of y] by simp_all
    have yb: "(2::rat) ^ (k - 1) < y" "y \<le> 2 ^ k"
      using my pow_bounds_rat[OF b] by linarith+
    have ay: "a = 1 / y" using apos by (simp add: y_def)
    have ypos: "0 < y" using y1 by simp
    have lo: "1 / (2::rat) ^ k \<le> a"
      unfolding ay using yb(2) ypos by (simp add: frac_le)
    have hi: "a < 1 / (2::rat) ^ (k - 1)"
      unfolding ay using yb(1) by (simp add: frac_less2)
    have p1: "2 powi (- int k) = 1 / (2::rat) ^ k"
      by (simp only: power_int_minus_divide power_int_of_nat)
    have p2: "2 powi (- int k + 1) = 1 / (2::rat) ^ (k - 1)"
    proof -
      have "- int k + 1 = - int (k - 1)" using kpos by simp
      then show ?thesis by (simp only: power_int_minus_divide power_int_of_nat)
    qed
    show ?thesis unfolding e p1 p2 using lo hi by simp
  qed
  then show "2 powi (f64_exponent x) \<le> \<bar>x\<bar>" and "\<bar>x\<bar> < 2 powi (f64_exponent x + 1)"
    by (simp_all add: a_def)
qed

lemma round_half_even_ge: "of_int m \<le> q \<Longrightarrow> m \<le> round_half_even q"
proof -
  assume "of_int m \<le> q"
  then have "m \<le> \<lfloor>q\<rfloor>" by (simp add: le_floor_iff)
  then show ?thesis by (simp add: round_half_even_def Let_def)
qed

lemma round_half_even_le: "q \<le> of_int m \<Longrightarrow> round_half_even q \<le> m"
proof -
  assume h: "q \<le> of_int m"
  have f: "\<lfloor>q\<rfloor> \<le> m" using h by (simp add: floor_le_iff)
  show ?thesis
  proof (cases "q = of_int \<lfloor>q\<rfloor>")
    case True
    then have "q - of_int \<lfloor>q\<rfloor> = 0" by simp
    then show ?thesis using f by (simp add: round_half_even_def Let_def)
  next
    case False
    then have "of_int \<lfloor>q\<rfloor> < q" by (metis of_int_floor_le order_less_le)
    then have "\<lfloor>q\<rfloor> < m" using h by (metis of_int_less_iff order_less_le_trans)
    then show ?thesis by (simp add: round_half_even_def Let_def)
  qed
qed

lemma powi2_pos: "0 < (2::rat) powi z"
  by (simp add: power_int_def)

lemma powi2_le: "a \<le> b \<Longrightarrow> (2::rat) powi a \<le> 2 powi b"
  by (rule power_int_increasing) simp_all

lemma powi2_less_imp: "(2::rat) powi a < 2 powi b \<Longrightarrow> a < b"
  using powi2_le[of b a] by (cases "a < b") simp_all

lemma powi2_split: "(2::rat) powi z = 2 ^ 52 * 2 powi (z - 52)"
  using power_int_add[of "2::rat" 52 "z - 52"] by simp

lemma powi2_split': "(2::rat) powi (z + 1) = 2 ^ 53 * 2 powi (z - 52)"
  using power_int_add[of "2::rat" 53 "z - 52"] by (simp add: add.commute)

lemma f64_round_nonzero:
  "x \<noteq> 0 \<Longrightarrow>
     f64_round x = of_int (round_half_even (x / 2 powi (f64_exponent x - 52))) * 2 powi (f64_exponent x - 52)"
  by (simp add: f64_round_def Let_def)

lemma f64_round_ge_grid:
  assumes g: "g = of_int m * 2 powi (e - 52)" and m: "2 ^ 52 \<le> m" "m < 2 ^ 53"
    and x: "g \<le> x"
  shows "g \<le> f64_round x"
proof -
  define ex where "ex = f64_exponent x"
  define u where "u = (2::rat) powi (ex - 52)"
  have upos: "0 < u" by (simp add: u_def powi2_pos)
  have m': "(2::rat) ^ 52 \<le> of_int m" "of_int m < (2::rat) ^ 53"
    using m by (metis of_int_le_iff of_int_numeral of_int_power, metis of_int_less_iff of_int_numeral of_int_power)
  have glo: "2 powi e \<le> g"
    unfolding g powi2_split[of e] using m'(1) powi2_pos[of "e - 52"] by simp
  have ghi: "g < 2 powi (e + 1)"
    unfolding g powi2_split'[of e] using m'(2) powi2_pos[of "e - 52"] by simp
  have gpos: "0 < g" using glo powi2_pos[of e] by linarith
  have xpos: "0 < x" using gpos x by linarith
  have xne: "x \<noteq> 0" using xpos by simp
  have xb: "2 powi ex \<le> x" "x < 2 powi (ex + 1)"
    using f64_exponent_bounds[OF xne] xpos by (simp_all add: ex_def)
  have "(2::rat) powi e < 2 powi (ex + 1)" using glo x xb(2) by linarith
  then have le: "e \<le> ex" using powi2_less_imp[of e "ex + 1"] by simp
  have r: "f64_round x = of_int (round_half_even (x / u)) * u"
    using f64_round_nonzero[OF xne] by (simp add: ex_def u_def)
  show ?thesis
  proof (cases "ex = e")
    case True
    have "of_int m \<le> x / u"
      using x upos by (simp add: g u_def True pos_le_divide_eq)
    then have "m \<le> round_half_even (x / u)" by (rule round_half_even_ge)
    then have "(of_int m :: rat) \<le> of_int (round_half_even (x / u))" by simp
    then have "of_int m * u \<le> of_int (round_half_even (x / u)) * u"
      using upos by simp
    then show ?thesis by (simp add: r g u_def True)
  next
    case False
    then have lt: "e + 1 \<le> ex" using le by simp
    have "2 ^ 52 * u \<le> x" using xb(1) powi2_split[of ex] by (simp add: u_def)
    then have "of_int (2 ^ 52) \<le> x / u" using upos by (simp add: pos_le_divide_eq)
    then have "2 ^ 52 \<le> round_half_even (x / u)" by (rule round_half_even_ge)
    then have "(of_int (2 ^ 52) :: rat) \<le> of_int (round_half_even (x / u))"
      by (simp only: of_int_le_iff)
    then have "2 ^ 52 * u \<le> of_int (round_half_even (x / u)) * u"
      using upos by simp
    then have "2 powi ex \<le> f64_round x" using powi2_split[of ex] by (simp add: r u_def)
    moreover have "(2::rat) powi (e + 1) \<le> 2 powi ex" using lt by (rule powi2_le)
    ultimately show ?thesis using ghi by linarith
  qed
qed

lemma f64_round_le_grid:
  assumes g: "g = of_int m * 2 powi (e - 52)" and m: "2 ^ 52 \<le> m" "m < 2 ^ 53"
    and x: "x \<le> g"
  shows "f64_round x \<le> g"
proof -
  define ex where "ex = f64_exponent x"
  define u where "u = (2::rat) powi (ex - 52)"
  have upos: "0 < u" by (simp add: u_def powi2_pos)
  have m': "(2::rat) ^ 52 \<le> of_int m" "of_int m < (2::rat) ^ 53"
    using m by (metis of_int_le_iff of_int_numeral of_int_power, metis of_int_less_iff of_int_numeral of_int_power)
  have glo: "2 powi e \<le> g"
    unfolding g powi2_split[of e] using m'(1) powi2_pos[of "e - 52"] by simp
  have gpos: "0 < g" using glo powi2_pos[of e] by linarith
  show ?thesis
  proof (cases "x = 0")
    case True
    then show ?thesis using gpos by (simp add: f64_round_def)
  next
    case xne: False
    have r: "f64_round x = of_int (round_half_even (x / u)) * u"
      using f64_round_nonzero[OF xne] by (simp add: ex_def u_def)
    show ?thesis
    proof (cases "x < 0")
      case True
      then have "x / u \<le> of_int 0" using upos by (simp add: divide_le_0_iff)
      then have "round_half_even (x / u) \<le> 0" by (rule round_half_even_le)
      then have "(of_int (round_half_even (x / u)) :: rat) \<le> 0" by simp
      then have "of_int (round_half_even (x / u)) * u \<le> 0"
        using upos by (simp add: mult_le_0_iff)
      then show ?thesis using gpos r by linarith
    next
      case False
      then have xpos: "0 < x" using xne by simp
      have xb: "2 powi ex \<le> x" "x < 2 powi (ex + 1)"
        using f64_exponent_bounds[OF xne] xpos by (simp_all add: ex_def)
      have ghi: "g < 2 powi (e + 1)"
        unfolding g powi2_split'[of e] using m'(2) powi2_pos[of "e - 52"] by simp
      have "(2::rat) powi ex < 2 powi (e + 1)" using ghi x xb(1) by linarith
      then have le: "ex \<le> e" using powi2_less_imp[of ex "e + 1"] by simp
      show ?thesis
      proof (cases "ex = e")
        case True
        have "x / u \<le> of_int m"
          using x upos by (simp add: g u_def True pos_divide_le_eq)
        then have "round_half_even (x / u) \<le> m" by (rule round_half_even_le)
        then have "(of_int (round_half_even (x / u)) :: rat) \<le> of_int m" by simp
        then have "of_int (round_half_even (x / u)) * u \<le> of_int m * u"
          using upos by simp
        then show ?thesis by (simp add: r g u_def True)
      next
        case False
        then have lt: "ex + 1 \<le> e" using le by simp
        have "x \<le> 2 ^ 53 * u" using xb(2) powi2_split'[of ex] by (simp add: u_def)
        then have "x / u \<le> of_int (2 ^ 53)" using upos by (simp add: pos_divide_le_eq)
        then have "round_half_even (x / u) \<le> 2 ^ 53" by (rule round_half_even_le)
        then have "(of_int (round_half_even (x / u)) :: rat) \<le> of_int (2 ^ 53)"
          by (simp only: of_int_le_iff)
        then have "of_int (round_half_even (x / u)) * u \<le> 2 ^ 53 * u"
          using upos by simp
        then have "f64_round x \<le> 2 powi (ex + 1)"
          using powi2_split'[of ex] by (simp add: r u_def)
        moreover have "(2::rat) powi (ex + 1) \<le> 2 powi e" using lt by (rule powi2_le)
        ultimately show ?thesis using glo by linarith
      qed
    qed
  qed
qed


lemma f64_of_int_ge_threshold:
  assumes "10000000000 \<le> n"
  shows "10000000000 \<le> f64_of_int n"
proof -
  have "(10000000000::rat) \<le> of_int n"
    using assms by (metis of_int_le_iff of_int_numeral)
  then show ?thesis
    unfolding f64_of_int_def
    using f64_round_ge_grid[of 10000000000 "10000000000 * 2 ^ 19" 33 "of_int n"]
    by simp
qed

lemma f64_of_int_le_below_threshold:
  assumes "n \<le> 9999999999"
  shows "f64_of_int n \<le> 9999999999"
proof -
  have "of_int n \<le> (9999999999::rat)"
    using assms by (metis of_int_le_iff of_int_numeral)
  then show ?thesis
    unfolding f64_of_int_def
    using f64_round_le_grid[of 9999999999 "9999999999 * 2 ^ 19" 33 "of_int n"]
    by simp
qed

lemma f64_round_ge_100000: "100000 \<le> x \<Longrightarrow> 100000 \<le> f64_round x"
  using f64_round_ge_grid[of 100000 "100000 * 2 ^ 36" 16 x] by simp

lemma f64_round_lt_100000:
  assumes "x \<le> 9999999999 / 100000"
  shows "f64_round x < 100000"
proof -
  define g :: rat where "g = of_int (100000 * 2 ^ 36 - 1) * 2 powi (16 - 52)"
  have gv: "g = 6871947673599999 / 68719476736" by (simp add: g_def)
  have "x \<le> g" using assms by (simp add: gv)
  then have "f64_round x \<le> g"
    using f64_round_le_grid[of g "100000 * 2 ^ 36 - 1" 16 x] by (simp add: g_def)
  then show ?thesis by (simp add: gv)
qed

lemma sufficient_iff:
  "(100000 \<le> f64_div (f64_of_int n) 100000) = (10000000000 \<le> n)"
proof (cases "10000000000 \<le> n")
  case True
  then have "100000 \<le> f64_of_int n / 100000"
    using f64_of_int_ge_threshold[of n] by simp
  then show ?thesis using True f64_round_ge_100000 by (simp add: f64_div_def)
next
  case False
  then have "n \<le> 9999999999" by simp
  then have "f64_of_int n / 100000 \<le> 9999999999 / 100000"
    using f64_of_int_le_below_threshold[of n] by simp
  then have "f64_div (f64_of_int n) 100000 < 100000"
    unfolding f64_div_def by (rule f64_round_lt_100000)
  then show ?thesis using False by simp
qed

lemma round_half_even_of_int: "round_half_even (of_int z) = z"
  by (simp add: round_half_even_def)

lemma f64_round_exact_small:
  assumes "x = of_int z * 2 powi (f64_exponent x - 52)" and "x \<noteq> 0"
  shows "f64_round x = x"
proof -
  have "x / 2 powi (f64_exponent x - 52) = of_int z"
    using assms(1) powi2_pos[of "f64_exponent x - 52"]
    by (metis nonzero_eq_divide_eq order_less_irrefl)
  then show ?thesis
    using assms by (simp add: f64_round_nonzero round_half_even_of_int)
qed

lemma f64_of_int_exact:
  assumes "\<bar>n\<bar> \<le> 2 ^ 53"
  shows "f64_of_int n = of_int n"
proof (cases "n = 0")
  case True
  then show ?thesis by (simp add: f64_of_int_def f64_round_def)
next
  case False
  define x :: rat where "x = of_int n"
  define ex where "ex = f64_exponent x"
  have xne: "x \<noteq> 0" using False by (simp add: x_def)
  have xb: "2 powi ex \<le> \<bar>x\<bar>" using f64_exponent_bounds(1)[OF xne] by (simp add: ex_def)
  have "\<bar>x\<bar> = of_int \<bar>n\<bar>" by (simp add: x_def)
  also have "\<dots> \<le> of_int (2 ^ 53)" using assms by (simp only: of_int_le_iff)
  finally have xle: "\<bar>x\<bar> \<le> 2 ^ 53" by simp
  have "(2::rat) powi ex < 2 powi 54" using xb xle by simp
  then have ex53: "ex \<le> 53" using powi2_less_imp[of ex 54] by simp
  show ?thesis
  proof (cases "ex \<le> 52")
    case True
    define d where "d = nat (52 - ex)"
    have d: "ex - 52 = - int d" using True by (simp add: d_def)
    have u: "(2::rat) powi (ex - 52) = 1 / 2 ^ d"
      unfolding d by (simp only: power_int_minus_divide power_int_of_nat)
    have "x = of_int (n * 2 ^ d) * 2 powi (f64_exponent x - 52)"
      using u by (simp add: x_def ex_def)
    then have "f64_round x = x" using xne by (rule f64_round_exact_small)
    then show ?thesis by (simp add: f64_of_int_def x_def)
  next
    case False
    then have e: "ex = 53" using ex53 by simp
    have "(2::rat) ^ 53 \<le> \<bar>x\<bar>" using xb by (simp add: e)
    then have ax: "\<bar>x\<bar> = 2 ^ 53" using xle by simp
    have "even n"
    proof -
      have "of_int \<bar>n\<bar> = (of_int (2 ^ 53) :: rat)" using ax by (simp add: x_def)
      then have "\<bar>n\<bar> = 2 ^ 53" by (simp only: of_int_eq_iff)
      then show ?thesis by (metis even_abs_add_iff even_add even_numeral even_power zero_less_numeral)
    qed
    then obtain h where h: "n = 2 * h" by (elim evenE)
    have "x = of_int h * 2 powi (f64_exponent x - 52)"
      using e by (simp add: x_def ex_def h)
    then have "f64_round x = x" using xne by (rule f64_round_exact_small)
    then show ?thesis by (simp add: f64_of_int_def x_def)
  qed
qed

text \<open>A counter that holds a count below \<open>2 ^ 53\<close> is incremented exactly.\<close>

lemma gauge_Inc_exact:
  assumes "0 \<le> k" "k < 2 ^ 53" and "g address = Some (of_int k)"
  shows "gauge_Inc g address address = Some (of_int (k + 1))"
proof -
  have "\<bar>k + 1\<bar> \<le> 2 ^ 53" using assms(1,2) by simp
  then have "f64_of_int (k + 1) = of_int (k + 1)" by (rule f64_of_int_exact)
  then have "f64_add (of_int k) 1 = of_int (k + 1)"
    by (simp add: f64_add_def f64_of_int_def)
  then show ?thesis using assms(3) by (simp add: gauge_Inc_def)
qed

subsection \<open>checkConsensus\<close>

lemma checkConsensus_unfold:
  "checkConsensus c w =
     (case IsConsensusEstablished c w of
        (Inl err, w1) \<Rightarrow> (False, emit (Sleep 60) w1)
      | (Inr consensus, w1) \<Rightarrow>
          if consensus then
            (case IsConsensusEstablished c (emit (Sleep 5) w1) of
               (Inl err, w2) \<Rightarrow> (False, emit (Sleep 60) w2)
             | (Inr consensus, w2) \<Rightarrow>
                 if consensus then
                   (case IsConsensusEstablished c (emit (Sleep 5) w2) of
                      (Inl err, w3) \<Rightarrow> (False, emit (Sleep 60) w3)
                    | (Inr consensus, w3) \<Rightarrow> (consensus, w3))
                 else (False, w2))
          else (False, w1))"
  unfolding checkConsensus_def
  apply (subst checkConsensus_loop.simps)
  apply (subst checkConsensus_loop.simps)
  apply (subst checkConsensus_loop.simps)
  apply (subst checkConsensus_loop.simps)
  apply (simp add: maxAttempts_def split: prod.splits sum.splits)
  done

text \<open>
  C3. The three checks are sent one after the other, each to the environment as the
  previous one left it. \<open>checkConsensus\<close> returns true exactly when all three answer
  true without error. The number of checks it sends is the position of the first
  check that answers with an error or with false (3 when there is none): nothing is
  sent after it. The trace shows the 5-second pause between two checks and the
  60-second pause after an error.
\<close>

theorem checkConsensus_three_checks:
  "let q = isConsensusEstablished c;
       r1 = q (outside w); r2 = q (snd r1); r3 = q (snd r2);
       check = Rpc ''isConsensusEstablished'' [];
       res = checkConsensus c w;
       n = (if fst r1 \<noteq> Inr True then 1 else if fst r2 \<noteq> Inr True then 2 else 3);
       failed = (if fst r1 \<noteq> Inr True then isl (fst r1)
                 else if fst r2 \<noteq> Inr True then isl (fst r2) else isl (fst r3))
   in fst res = (fst r1 = Inr True \<and> fst r2 = Inr True \<and> fst r3 = Inr True) \<and>
      length (filter (\<lambda>e. e = check) (emitted w (snd res))) = n \<and>
      emitted w (snd res) =
        take (2 * n - 1) [check, Sleep 5, check, Sleep 5, check] @
        (if failed then [Sleep 60] else [])"
  apply (simp add: checkConsensus_unfold Let_def)
  apply (cases "isConsensusEstablished c (outside w)")
  subgoal for a1 n1
    apply (cases "isConsensusEstablished c n1")
    subgoal for a2 n2
      apply (cases "isConsensusEstablished c n2")
      subgoal for a3 n3
        apply (cases a1; cases a2; cases a3)
        apply (simp_all add: IsConsensusEstablished_def request_def emit_def emitted_def)
        done
      done
    done
  done

theorem checkConsensus_three_checks_witness:
  "fst (checkConsensus (fixedEnv (Inl (Err ''not found'')) (Inr 5000) (Inr 0)) startWorld) = True \<and>
   emitted startWorld
     (snd (checkConsensus (fixedEnv (Inl (Err ''not found'')) (Inr 5000) (Inr 0)) startWorld)) =
     [Rpc ''isConsensusEstablished'' [], Sleep 5, Rpc ''isConsensusEstablished'' [], Sleep 5,
      Rpc ''isConsensusEstablished'' []]"
  using checkConsensus_three_checks
          [of "fixedEnv (Inl (Err ''not found'')) (Inr 5000) (Inr 0)" startWorld]
  by (simp add: Let_def fixedEnv_def)

subsection \<open>checkSufficientBalance\<close>

text \<open>
  C6. When the balance is fetched, \<open>checkSufficientBalance\<close> returns true exactly
  when the balance is at least 10,000,000,000 of the smallest unit, that is, when the
  balance divided by 100000 (in exact arithmetic) is at least 100000 whole units;
  the rounding of the conversion to \<open>float64\<close> and of the division never moves the
  comparison. The second result is the rounded quotient. The registry changes in the
  balance gauge of the address only, which gets the balance converted to
  \<open>float64\<close>; that is the balance itself up to \<open>2 ^ 53\<close>.
\<close>

theorem checkSufficientBalance_threshold:
  assumes "getAccountByAddress c address (outside w) = (Inr balance, n)"
  shows "fst (checkSufficientBalance c address w) =
           (10000000000 \<le> sint balance, f64_div (f64_of_int (sint balance)) 100000) \<and>
         (10000000000 \<le> sint balance) =
           (100000 \<le> (of_int (sint balance) :: rat) / 100000) \<and>
         registry (snd (checkSufficientBalance c address w)) =
           (registry w)\<lparr>ValidatorBalanceGauge :=
              (ValidatorBalanceGauge (registry w))(address \<mapsto> f64_of_int (sint balance))\<rparr> \<and>
         (\<bar>sint balance\<bar> \<le> 2 ^ 53 \<longrightarrow>
            f64_of_int (sint balance) = of_int (sint balance))"
proof -
  have a: "(10000000000 \<le> sint balance) = (100000 \<le> (of_int (sint balance) :: rat) / 100000)"
  proof -
    have "(100000 \<le> (of_int (sint balance) :: rat) / 100000) = ((10000000000::rat) \<le> of_int (sint balance))"
      by (simp add: pos_le_divide_eq)
    also have "\<dots> = (10000000000 \<le> sint balance)"
      by (metis of_int_le_iff of_int_numeral)
    finally show ?thesis by simp
  qed
  have b: "fst (checkSufficientBalance c address w) =
           (10000000000 \<le> sint balance, f64_div (f64_of_int (sint balance)) 100000)"
    using assms
    by (simp add: checkSufficientBalance_def GetAccountBalanceByAddress_def request_def
        Let_def sufficient_iff)
  have r: "registry (snd (checkSufficientBalance c address w)) =
           (registry w)\<lparr>ValidatorBalanceGauge :=
              (ValidatorBalanceGauge (registry w))(address \<mapsto> f64_of_int (sint balance))\<rparr>"
    using assms
    by (simp add: checkSufficientBalance_def GetAccountBalanceByAddress_def request_def
        emit_def publish_def gauge_Set_def Let_def)
  have x: "\<bar>sint balance\<bar> \<le> 2 ^ 53 \<longrightarrow>
             f64_of_int (sint balance) = of_int (sint balance)"
    using f64_of_int_exact[of "sint balance"] by blast
  show ?thesis
    using a b r x by (intro conjI)
qed

theorem checkSufficientBalance_threshold_witness:
  "fst (checkSufficientBalance (fixedEnv (Inl (Err ''not found'')) (Inr 5000) (Inr 9999999999)) ''NQ00'' startWorld) =
     (False, 6871947672912805 / 68719476736) \<and>
   ValidatorBalanceGauge (registry (snd (checkSufficientBalance
       (fixedEnv (Inl (Err ''not found'')) (Inr 5000) (Inr 9999999999)) ''NQ00'' startWorld))) ''NQ00'' =
     Some 9999999999"
proof -
  have h: "getAccountByAddress (fixedEnv (Inl (Err ''not found'')) (Inr 5000) (Inr 9999999999)) ''NQ00''
             (outside startWorld) = (Inr 9999999999, ())"
    by (simp add: fixedEnv_def)
  have s: "sint (9999999999 :: int64) = 9999999999" by simp
  have n: "(10000000000 \<le> (9999999999::int)) = False" by simp
  have v1: "f64_of_int 9999999999 = 9999999999" by code_simp
  have v2: "f64_div 9999999999 100000 = 6871947672912805 / 68719476736" by code_simp
  note t = checkSufficientBalance_threshold[OF h]
  have c: "fst (checkSufficientBalance (fixedEnv (Inl (Err ''not found'')) (Inr 5000) (Inr 9999999999)) ''NQ00'' startWorld) =
     (False, 6871947672912805 / 68719476736)"
    using t[THEN conjunct1] by (simp only: s v1 v2 n)
  have d: "ValidatorBalanceGauge (registry (snd (checkSufficientBalance
       (fixedEnv (Inl (Err ''not found'')) (Inr 5000) (Inr 9999999999)) ''NQ00'' startWorld))) ''NQ00'' =
     Some 9999999999"
    using t[THEN conjunct2, THEN conjunct2, THEN conjunct1] by (simp add: s v1)
  show ?thesis
    using c d by (rule conjI)
qed

subsection \<open>Split and TrimSpace\<close>

text \<open>
  The pieces of \<open>strings.Split\<close> hold no separator, and joined by the separator they give
  the string back.
\<close>

lemma strings_Split_not_Nil: "strings_Split s sep \<noteq> []"
  by (induction s) (auto split: list.splits)

lemma strings_Split_join: "concat (map (\<lambda>l. l @ [sep]) (strings_Split s sep)) = s @ [sep]"
proof (induction s)
  case Nil
  then show ?case by simp
next
  case (Cons ch s)
  then show ?case
    using strings_Split_not_Nil[of s sep] by (cases "strings_Split s sep") auto
qed

lemma strings_Split_pieces: "l \<in> set (strings_Split s sep) \<Longrightarrow> sep \<notin> set l"
proof (induction s arbitrary: l)
  case Nil
  then show ?case by simp
next
  case (Cons ch s)
  then show ?case
    using strings_Split_not_Nil[of s sep]
    by (cases "strings_Split s sep") (auto split: if_splits)
qed

text \<open>
  \<open>strings.TrimSpace\<close> returns a contiguous part of its argument that neither starts nor
  ends with white space.
\<close>

lemma trimLeading_suffix: "suffix (trimLeading seqs s) s"
proof (induction seqs s rule: trimLeading.induct)
  case (1 seqs s)
  show ?case
  proof (cases "find (\<lambda>p. p \<noteq> [] \<and> prefix p s) seqs")
    case None
    then show ?thesis by (subst trimLeading.simps) simp
  next
    case (Some p)
    have "suffix (trimLeading seqs (drop (length p) s)) (drop (length p) s)"
      using "1.IH"[OF Some] .
    then have "suffix (trimLeading seqs (drop (length p) s)) s"
      using suffix_drop suffix_order.trans by blast
    then show ?thesis using Some by (subst trimLeading.simps) simp
  qed
qed

lemma trimLeading_done:
  "p \<in> set seqs \<Longrightarrow> p \<noteq> [] \<Longrightarrow> \<not> prefix p (trimLeading seqs s)"
proof (induction seqs s rule: trimLeading.induct)
  case (1 seqs s)
  show ?case
  proof (cases "find (\<lambda>p. p \<noteq> [] \<and> prefix p s) seqs")
    case None
    then have "\<not> prefix p s" using "1.prems" by (auto simp: find_None_iff)
    then show ?thesis using None by (subst trimLeading.simps) simp
  next
    case (Some q)
    have "\<not> prefix p (trimLeading seqs (drop (length q) s))"
      using "1.IH"[OF Some "1.prems"] .
    then show ?thesis using Some by (subst trimLeading.simps) simp
  qed
qed

lemma unicodeSpaces_nonempty: "p \<in> set unicodeSpaces \<Longrightarrow> p \<noteq> []"
  by (auto simp: unicodeSpaces_def)

lemma strings_TrimSpace_sublist: "sublist (strings_TrimSpace s) s"
proof -
  define t1 where "t1 = trimLeading unicodeSpaces s"
  define t2 where "t2 = trimLeading (map rev unicodeSpaces) (rev t1)"
  have "suffix t2 (rev t1)" unfolding t2_def by (rule trimLeading_suffix)
  then have "prefix (rev t2) t1" by (simp add: suffix_to_prefix)
  moreover have "suffix t1 s" unfolding t1_def by (rule trimLeading_suffix)
  ultimately have "sublist (rev t2) s"
    by (meson prefix_imp_sublist sublist_order.order_trans suffix_imp_sublist)
  then show ?thesis by (simp add: strings_TrimSpace_def t1_def t2_def)
qed

lemma strings_TrimSpace_trimmed:
  assumes "p \<in> set unicodeSpaces"
  shows "\<not> prefix p (strings_TrimSpace s)" and "\<not> suffix p (strings_TrimSpace s)"
proof -
  define t1 where "t1 = trimLeading unicodeSpaces s"
  define t2 where "t2 = trimLeading (map rev unicodeSpaces) (rev t1)"
  have r: "strings_TrimSpace s = rev t2" by (simp add: strings_TrimSpace_def t1_def t2_def)
  have ne: "p \<noteq> []" using assms by (rule unicodeSpaces_nonempty)
  have "suffix t2 (rev t1)" unfolding t2_def by (rule trimLeading_suffix)
  then have pre: "prefix (rev t2) t1" by (simp add: suffix_to_prefix)
  have "\<not> prefix p t1" unfolding t1_def using assms ne by (rule trimLeading_done)
  then show "\<not> prefix p (strings_TrimSpace s)"
    unfolding r using pre prefix_order.trans by blast
  have "rev p \<in> set (map rev unicodeSpaces)" using assms by simp
  moreover have "rev p \<noteq> []" using ne by simp
  ultimately have "\<not> prefix (rev p) t2" unfolding t2_def by (rule trimLeading_done)
  then show "\<not> suffix p (strings_TrimSpace s)"
    unfolding r by (simp add: suffix_to_prefix)
qed

subsection \<open>getPrivateKey, getVoteKey\<close>










subsection \<open>The steps of activateValidator\<close>

text \<open>What a step leaves behind: one more event, the registry as it was.\<close>

lemma request_snd: "snd (request q e w) = emit e (w\<lparr>outside := snd (q (outside w))\<rparr>)"
  by (simp add: request_def split: prod.splits)

lemma request_fst: "fst (request q e w) = fst (q (outside w))"
  by (simp add: request_def split: prod.splits)

lemma getPrivateKey_snd:
  "snd (getPrivateKey c p w) = emit (ReadFile p) (w\<lparr>outside := snd (osReadFile c p (outside w))\<rparr>)"
  by (simp add: getPrivateKey_def request_def split: prod.splits sum.splits)

lemma getVoteKey_snd:
  "snd (getVoteKey c p w) = emit (ReadFile p) (w\<lparr>outside := snd (osReadFile c p (outside w))\<rparr>)"
  by (simp add: getVoteKey_def request_def split: prod.splits sum.splits)

lemma ImportRawKey_snd:
  "snd (ImportRawKey c k p w) =
     emit (Rpc ''importRawKey'' [PStr k, PStr p])
       (w\<lparr>outside := snd (importRawKey c k p (outside w))\<rparr>)"
  by (simp add: ImportRawKey_def request_def split: prod.splits sum.splits)

lemma UnlockAccount_snd:
  "snd (UnlockAccount c a p d w) =
     emit (Rpc ''unlockAccount'' [PStr a, PStr p, PInt d])
       (w\<lparr>outside := snd (unlockAccount c a p d (outside w))\<rparr>)"
  by (simp add: UnlockAccount_def request_def split: prod.splits sum.splits)

lemma SendNewValidatorTransaction_snd:
  "snd (SendNewValidatorTransaction c s v sk vk r sd f h w) =
     emit (Rpc ''sendNewValidatorTransaction''
             [PStr s, PStr v, PStr sk, PStr vk, PStr r, PStr sd, PInt f, PStr h])
       (w\<lparr>outside := snd (sendNewValidatorTransaction c s v sk vk r sd f h (outside w))\<rparr>)"
  by (simp add: SendNewValidatorTransaction_def request_snd)

lemma SendReactivateValidatorTransaction_snd:
  "snd (SendReactivateValidatorTransaction c s v sk f h w) =
     emit (Rpc ''sendReactivateValidatorTransaction'' [PStr s, PStr v, PStr sk, PInt f, PStr h])
       (w\<lparr>outside := snd (sendReactivateValidatorTransaction c s v sk f h (outside w))\<rparr>)"
  by (simp add: SendReactivateValidatorTransaction_def request_snd)

lemma SendRawTransaction_snd:
  "snd (SendRawTransaction c t w) =
     emit (Rpc ''sendRawTransaction'' [PStr t])
       (w\<lparr>outside := snd (sendRawTransaction c t (outside w))\<rparr>)"
  by (simp add: SendRawTransaction_def request_snd)

lemmas step_snd =
  getPrivateKey_snd getVoteKey_snd ImportRawKey_snd UnlockAccount_snd
  SendNewValidatorTransaction_snd SendReactivateValidatorTransaction_snd SendRawTransaction_snd

lemma snd_eqD: "f = (r, w') \<Longrightarrow> w' = snd f"
  by simp

lemma calls_append [simp]: "calls (xs @ ys) = calls xs @ calls ys"
  by (induction xs rule: calls.induct) simp_all

lemma step_trace:
  "trace (snd (getPrivateKey c p w)) = trace w @ [ReadFile p]"
  "trace (snd (getVoteKey c p w)) = trace w @ [ReadFile p]"
  "trace (snd (ImportRawKey c k pw w)) = trace w @ [Rpc ''importRawKey'' [PStr k, PStr pw]]"
  "trace (snd (UnlockAccount c a pw d w)) =
     trace w @ [Rpc ''unlockAccount'' [PStr a, PStr pw, PInt d]]"
  "trace (snd (SendNewValidatorTransaction c s v sk vk r sd f h w)) =
     trace w @ [Rpc ''sendNewValidatorTransaction''
                  [PStr s, PStr v, PStr sk, PStr vk, PStr r, PStr sd, PInt f, PStr h]]"
  "trace (snd (SendReactivateValidatorTransaction c s v sk f h w)) =
     trace w @ [Rpc ''sendReactivateValidatorTransaction''
                  [PStr s, PStr v, PStr sk, PInt f, PStr h]]"
  "trace (snd (SendRawTransaction c t w)) = trace w @ [Rpc ''sendRawTransaction'' [PStr t]]"
  by (simp_all add: step_snd emit_def)

lemma step_registry:
  "registry (snd (getPrivateKey c p w)) = registry w"
  "registry (snd (getVoteKey c p w)) = registry w"
  "registry (snd (ImportRawKey c k pw w)) = registry w"
  "registry (snd (UnlockAccount c a pw d w)) = registry w"
  "registry (snd (SendNewValidatorTransaction c s v sk vk r sd f h w)) = registry w"
  "registry (snd (SendReactivateValidatorTransaction c s v sk f h w)) = registry w"
  "registry (snd (SendRawTransaction c t w)) = registry w"
  by (simp_all add: step_snd emit_def)

lemma activateValidator_run:
  assumes s1: "getPrivateKey c ''/keys/signing_key.txt''
                 (emit (Call ''activateValidator'' address) w) = (r1, w1)"
    and s2: "getVoteKey c ''/keys/vote_key.txt'' w1 = (r2, w2)"
    and s3: "getPrivateKey c ''/keys/address.txt'' w2 = (r3, w3)"
    and s4: "ImportRawKey c (projr r3) [] w3 = (r4, w4)"
    and s5: "UnlockAccount c address [] 0 w4 = (r5, w5)"
    and s6: "SendNewValidatorTransaction c address address (projr r1) (projr r2) address []
               500 ''+0'' w5 = (r6, w6)"
    and s7: "SendRawTransaction c (projr r6) w6 = (r7, w7)"
  shows "activateValidator c address w =
      (if isl r1 then (False, w1) else if isl r2 then (False, w2)
       else if isl r3 then (False, w3) else if isl r4 then (False, w4)
       else if isl r5 then (False, w5) else if isl r6 then (False, w6)
       else if isl r7 then (False, w7)
       else (True,
           publish (ValidatorActivatedCounterGauge_update (\<lambda>g. gauge_Inc g address))
             (publish (ValidatorActivatedGauge_update (\<lambda>g. gauge_Set g address 1)) w7)))"
    and "trace w1 = trace w @ [Call ''activateValidator'' address,
                               ReadFile ''/keys/signing_key.txt'']"
    and "trace w2 = trace w1 @ [ReadFile ''/keys/vote_key.txt'']"
    and "trace w3 = trace w2 @ [ReadFile ''/keys/address.txt'']"
    and "trace w4 = trace w3 @ [Rpc ''importRawKey'' [PStr (projr r3), PStr []]]"
    and "trace w5 = trace w4 @ [Rpc ''unlockAccount'' [PStr address, PStr [], PInt 0]]"
    and "trace w6 = trace w5 @ [Rpc ''sendNewValidatorTransaction''
             [PStr address, PStr address, PStr (projr r1), PStr (projr r2),
              PStr address, PStr [], PInt 500, PStr ''+0'']]"
    and "trace w7 = trace w6 @ [Rpc ''sendRawTransaction'' [PStr (projr r6)]]"
    and "registry w1 = registry w" and "registry w2 = registry w"
    and "registry w3 = registry w" and "registry w4 = registry w"
    and "registry w5 = registry w" and "registry w6 = registry w"
    and "registry w7 = registry w"
proof -
  show "activateValidator c address w =
      (if isl r1 then (False, w1) else if isl r2 then (False, w2)
       else if isl r3 then (False, w3) else if isl r4 then (False, w4)
       else if isl r5 then (False, w5) else if isl r6 then (False, w6)
       else if isl r7 then (False, w7)
       else (True,
           publish (ValidatorActivatedCounterGauge_update (\<lambda>g. gauge_Inc g address))
             (publish (ValidatorActivatedGauge_update (\<lambda>g. gauge_Set g address 1)) w7)))"
    unfolding activateValidator_def
    using s1 s2 s3 s4 s5 s6 s7
    apply (cases r1; simp)
    apply (cases r2; simp)
    apply (cases r3; simp)
    apply (cases r4; simp)
    apply (cases r5; simp)
    apply (cases r6; simp)
    apply (cases r7; simp)
    done
  show t1: "trace w1 = trace w @ [Call ''activateValidator'' address,
                               ReadFile ''/keys/signing_key.txt'']"
    unfolding snd_eqD[OF s1] by (simp add: step_trace emit_def)
  show "trace w2 = trace w1 @ [ReadFile ''/keys/vote_key.txt'']"
    unfolding snd_eqD[OF s2] by (simp add: step_trace)
  show "trace w3 = trace w2 @ [ReadFile ''/keys/address.txt'']"
    unfolding snd_eqD[OF s3] by (simp add: step_trace)
  show "trace w4 = trace w3 @ [Rpc ''importRawKey'' [PStr (projr r3), PStr []]]"
    unfolding snd_eqD[OF s4] by (simp add: step_trace)
  show "trace w5 = trace w4 @ [Rpc ''unlockAccount'' [PStr address, PStr [], PInt 0]]"
    unfolding snd_eqD[OF s5] by (simp add: step_trace)
  show "trace w6 = trace w5 @ [Rpc ''sendNewValidatorTransaction''
             [PStr address, PStr address, PStr (projr r1), PStr (projr r2),
              PStr address, PStr [], PInt 500, PStr ''+0'']]"
    unfolding snd_eqD[OF s6] by (simp add: step_trace)
  show "trace w7 = trace w6 @ [Rpc ''sendRawTransaction'' [PStr (projr r6)]]"
    unfolding snd_eqD[OF s7] by (simp add: step_trace)
  show g1: "registry w1 = registry w"
    unfolding snd_eqD[OF s1] by (simp add: step_registry emit_def)
  show g2: "registry w2 = registry w"
    unfolding snd_eqD[OF s2] by (simp add: step_registry g1)
  show g3: "registry w3 = registry w"
    unfolding snd_eqD[OF s3] by (simp add: step_registry g2)
  show g4: "registry w4 = registry w"
    unfolding snd_eqD[OF s4] by (simp add: step_registry g3)
  show g5: "registry w5 = registry w"
    unfolding snd_eqD[OF s5] by (simp add: step_registry g4)
  show g6: "registry w6 = registry w"
    unfolding snd_eqD[OF s6] by (simp add: step_registry g5)
  show "registry w7 = registry w"
    unfolding snd_eqD[OF s7] by (simp add: step_registry g6)
qed

lemma activateValidator_effect:
  "\<exists>es. trace (snd (activateValidator c address w)) =
          trace w @ Call ''activateValidator'' address # es \<and> calls es = []"
proof -
  obtain r1 w1 where s1: "getPrivateKey c ''/keys/signing_key.txt''
      (emit (Call ''activateValidator'' address) w) = (r1, w1)"
    by (cases "getPrivateKey c ''/keys/signing_key.txt''
                 (emit (Call ''activateValidator'' address) w)")
  obtain r2 w2 where s2: "getVoteKey c ''/keys/vote_key.txt'' w1 = (r2, w2)"
    by (cases "getVoteKey c ''/keys/vote_key.txt'' w1")
  obtain r3 w3 where s3: "getPrivateKey c ''/keys/address.txt'' w2 = (r3, w3)"
    by (cases "getPrivateKey c ''/keys/address.txt'' w2")
  obtain r4 w4 where s4: "ImportRawKey c (projr r3) [] w3 = (r4, w4)"
    by (cases "ImportRawKey c (projr r3) [] w3")
  obtain r5 w5 where s5: "UnlockAccount c address [] 0 w4 = (r5, w5)"
    by (cases "UnlockAccount c address [] 0 w4")
  obtain r6 w6 where s6:
    "SendNewValidatorTransaction c address address (projr r1) (projr r2) address [] 500 ''+0'' w5
       = (r6, w6)"
    by (cases "SendNewValidatorTransaction c address address (projr r1) (projr r2) address
                 [] 500 ''+0'' w5")
  obtain r7 w7 where s7: "SendRawTransaction c (projr r6) w6 = (r7, w7)"
    by (cases "SendRawTransaction c (projr r6) w6")
  note run = activateValidator_run[OF s1 s2 s3 s4 s5 s6 s7]
  show ?thesis
    unfolding run(1) by (simp add: run(2-8) publish_def)
qed

text \<open>
  C5. \<open>activateValidator\<close> runs seven steps in this order, each on the world the
  previous one left: read the signing key, read the voting key, read the account
  key, import the account key (empty passphrase), unlock the account (empty
  passphrase, duration 0), build the new-validator transaction (sender, validator
  and reward address all the given address, fee 500, validity start \<open>+0\<close>), send
  the raw transaction. It returns true exactly when none of the seven fails. The
  events it adds to the trace are its entry and the steps up to and including the
  first one that fails, in this order, so no step is skipped and none runs after a
  failure. When it returns false the registry is unchanged; when it returns true the
  only changes are the activated gauge of the address, set to 1, and the activation
  counter of the address, incremented.
\<close>

theorem activateValidator_steps:
  "let s0 = emit (Call ''activateValidator'' address) w;
       s1 = getPrivateKey c ''/keys/signing_key.txt'' s0;
       s2 = getVoteKey c ''/keys/vote_key.txt'' (snd s1);
       s3 = getPrivateKey c ''/keys/address.txt'' (snd s2);
       s4 = ImportRawKey c (projr (fst s3)) [] (snd s3);
       s5 = UnlockAccount c address [] 0 (snd s4);
       s6 = SendNewValidatorTransaction c address address (projr (fst s1)) (projr (fst s2))
              address [] 500 ''+0'' (snd s5);
       s7 = SendRawTransaction c (projr (fst s6)) (snd s6);
       performed =
         (if isl (fst s1) then 1 else if isl (fst s2) then 2 else if isl (fst s3) then 3
          else if isl (fst s4) then 4 else if isl (fst s5) then 5 else if isl (fst s6) then 6
          else 7);
       res = activateValidator c address w
   in fst res =
        (\<not> isl (fst s1) \<and> \<not> isl (fst s2) \<and> \<not> isl (fst s3) \<and> \<not> isl (fst s4) \<and>
         \<not> isl (fst s5) \<and> \<not> isl (fst s6) \<and> \<not> isl (fst s7)) \<and>
      emitted w (snd res) =
        take (Suc performed)
          [Call ''activateValidator'' address,
           ReadFile ''/keys/signing_key.txt'',
           ReadFile ''/keys/vote_key.txt'',
           ReadFile ''/keys/address.txt'',
           Rpc ''importRawKey'' [PStr (projr (fst s3)), PStr []],
           Rpc ''unlockAccount'' [PStr address, PStr [], PInt 0],
           Rpc ''sendNewValidatorTransaction''
             [PStr address, PStr address, PStr (projr (fst s1)), PStr (projr (fst s2)),
              PStr address, PStr [], PInt 500, PStr ''+0''],
           Rpc ''sendRawTransaction'' [PStr (projr (fst s6))]] \<and>
      registry (snd res) =
        (if fst res then
           (registry w)\<lparr>ValidatorActivatedGauge :=
                           (ValidatorActivatedGauge (registry w))(address \<mapsto> 1),
                         ValidatorActivatedCounterGauge :=
                           gauge_Inc (ValidatorActivatedCounterGauge (registry w)) address\<rparr>
         else registry w)"
proof -
  obtain r1 w1 where s1: "getPrivateKey c ''/keys/signing_key.txt''
      (emit (Call ''activateValidator'' address) w) = (r1, w1)"
    by (cases "getPrivateKey c ''/keys/signing_key.txt''
                 (emit (Call ''activateValidator'' address) w)")
  obtain r2 w2 where s2: "getVoteKey c ''/keys/vote_key.txt'' w1 = (r2, w2)"
    by (cases "getVoteKey c ''/keys/vote_key.txt'' w1")
  obtain r3 w3 where s3: "getPrivateKey c ''/keys/address.txt'' w2 = (r3, w3)"
    by (cases "getPrivateKey c ''/keys/address.txt'' w2")
  obtain r4 w4 where s4: "ImportRawKey c (projr r3) [] w3 = (r4, w4)"
    by (cases "ImportRawKey c (projr r3) [] w3")
  obtain r5 w5 where s5: "UnlockAccount c address [] 0 w4 = (r5, w5)"
    by (cases "UnlockAccount c address [] 0 w4")
  obtain r6 w6 where s6:
    "SendNewValidatorTransaction c address address (projr r1) (projr r2) address [] 500 ''+0'' w5
       = (r6, w6)"
    by (cases "SendNewValidatorTransaction c address address (projr r1) (projr r2) address
                 [] 500 ''+0'' w5")
  obtain r7 w7 where s7: "SendRawTransaction c (projr r6) w6 = (r7, w7)"
    by (cases "SendRawTransaction c (projr r6) w6")
  note run = activateValidator_run[OF s1 s2 s3 s4 s5 s6 s7]
  show ?thesis
    unfolding Let_def s1 fst_conv snd_conv s2 s3 s4 s5 s6 s7 run(1)
    by (simp add: emitted_def publish_def gauge_Set_def run(2-15))
qed

lemma unit_outside: "(w :: unit world)\<lparr>outside := u\<rparr> = w"
  by (cases w) simp

lemma fixedEnv_steps:
  "getPrivateKey (fixedEnv v b a) ''/keys/signing_key.txt'' w =
     (Inr ''abc'', emit (ReadFile ''/keys/signing_key.txt'') w)"
  "getVoteKey (fixedEnv v b a) ''/keys/vote_key.txt'' w =
     (Inr ''ghi'', emit (ReadFile ''/keys/vote_key.txt'') w)"
  "getPrivateKey (fixedEnv v b a) ''/keys/address.txt'' w =
     (Inr ''def'', emit (ReadFile ''/keys/address.txt'') w)"
  "ImportRawKey (fixedEnv v b a) k p w =
     (Inr ''NQ00'', emit (Rpc ''importRawKey'' [PStr k, PStr p]) w)"
  "UnlockAccount (fixedEnv v b a) ad p d w =
     (Inr (), emit (Rpc ''unlockAccount'' [PStr ad, PStr p, PInt d]) w)"
  "SendNewValidatorTransaction (fixedEnv v b a) s va sk vk r sd f h w =
     (Inr ''rawtx'', emit (Rpc ''sendNewValidatorTransaction''
        [PStr s, PStr va, PStr sk, PStr vk, PStr r, PStr sd, PInt f, PStr h]) w)"
  "SendRawTransaction (fixedEnv v b a) t w =
     (Inr ''hash'', emit (Rpc ''sendRawTransaction'' [PStr t]) w)"
proof -
  have tr1: "strings_TrimSpace ''  abc '' = ''abc''" by code_simp
  have tr2: "strings_TrimSpace ''  ghi'' = ''ghi''" by code_simp
  have tr3: "strings_TrimSpace '' def'' = ''def''" by code_simp
  show "getPrivateKey (fixedEnv v b a) ''/keys/signing_key.txt'' w =
     (Inr ''abc'', emit (ReadFile ''/keys/signing_key.txt'') w)"
    by (simp add: unit_outside getPrivateKey_def request_def fixedEnv_def keyFiles_def newline_def
        strings_HasPrefix_def strings_TrimPrefix_def tr1)
  show "getVoteKey (fixedEnv v b a) ''/keys/vote_key.txt'' w =
     (Inr ''ghi'', emit (ReadFile ''/keys/vote_key.txt'') w)"
    by (simp add: unit_outside getVoteKey_def request_def fixedEnv_def keyFiles_def newline_def
        getVoteKey_lines.simps[of _ 0] tr2)
  show "getPrivateKey (fixedEnv v b a) ''/keys/address.txt'' w =
     (Inr ''def'', emit (ReadFile ''/keys/address.txt'') w)"
    by (simp add: unit_outside getPrivateKey_def request_def fixedEnv_def keyFiles_def newline_def
        strings_HasPrefix_def strings_TrimPrefix_def tr3)
  show "ImportRawKey (fixedEnv v b a) k p w =
     (Inr ''NQ00'', emit (Rpc ''importRawKey'' [PStr k, PStr p]) w)"
    by (simp add: unit_outside ImportRawKey_def request_def fixedEnv_def)
  show "UnlockAccount (fixedEnv v b a) ad p d w =
     (Inr (), emit (Rpc ''unlockAccount'' [PStr ad, PStr p, PInt d]) w)"
    by (simp add: unit_outside UnlockAccount_def request_def fixedEnv_def)
  show "SendNewValidatorTransaction (fixedEnv v b a) s va sk vk r sd f h w =
     (Inr ''rawtx'', emit (Rpc ''sendNewValidatorTransaction''
        [PStr s, PStr va, PStr sk, PStr vk, PStr r, PStr sd, PInt f, PStr h]) w)"
    by (simp add: unit_outside SendNewValidatorTransaction_def request_def fixedEnv_def)
  show "SendRawTransaction (fixedEnv v b a) t w =
     (Inr ''hash'', emit (Rpc ''sendRawTransaction'' [PStr t]) w)"
    by (simp add: unit_outside SendRawTransaction_def request_def fixedEnv_def)
qed

theorem activateValidator_steps_witness:
  "fst (activateValidator (fixedEnv (Inl (Err ''not found'')) (Inr 5000) (Inr 0))
          ''NQ00'' startWorld) = True \<and>
   emitted startWorld
     (snd (activateValidator (fixedEnv (Inl (Err ''not found'')) (Inr 5000) (Inr 0))
             ''NQ00'' startWorld)) =
     [Call ''activateValidator'' ''NQ00'',
      ReadFile ''/keys/signing_key.txt'',
      ReadFile ''/keys/vote_key.txt'',
      ReadFile ''/keys/address.txt'',
      Rpc ''importRawKey'' [PStr ''def'', PStr []],
      Rpc ''unlockAccount'' [PStr ''NQ00'', PStr [], PInt 0],
      Rpc ''sendNewValidatorTransaction''
        [PStr ''NQ00'', PStr ''NQ00'', PStr ''abc'', PStr ''ghi'', PStr ''NQ00'', PStr [],
         PInt 500, PStr ''+0''],
      Rpc ''sendRawTransaction'' [PStr ''rawtx'']] \<and>
   ValidatorActivatedGauge
     (registry (snd (activateValidator (fixedEnv (Inl (Err ''not found'')) (Inr 5000) (Inr 0))
                       ''NQ00'' startWorld))) ''NQ00'' = Some 1 \<and>
   ValidatorActivatedCounterGauge
     (registry (snd (activateValidator (fixedEnv (Inl (Err ''not found'')) (Inr 5000) (Inr 0))
                       ''NQ00'' startWorld))) ''NQ00'' = Some 1"
proof -
  have one: "f64_add 0 1 = 1" by code_simp
  show ?thesis
    using activateValidator_steps
            [of "''NQ00''" startWorld "fixedEnv (Inl (Err ''not found'')) (Inr 5000) (Inr 0)"]
    by (simp add: Let_def fixedEnv_steps gauge_Inc_def one startWorld_def emptyRegistry_def)
qed

lemma reActivateValidator_effect:
  "(\<exists>es. trace (snd (reActivateValidator c a w)) = trace w @ Call ''reActivateValidator'' a # es \<and>
         calls es = []) \<and>
   registry (snd (reActivateValidator c a w)) =
     (if fst (reActivateValidator c a w)
      then (registry w)\<lparr>ValidatorReActivatedCounterGauge :=
             gauge_Inc (ValidatorReActivatedCounterGauge (registry w)) a\<rparr>
      else registry w)"
proof -
  define s0 where "s0 = emit (Call ''reActivateValidator'' a) w"
  obtain r1 w1 where s1: "getPrivateKey c ''/keys/signing_key.txt'' s0 = (r1, w1)"
    by (cases "getPrivateKey c ''/keys/signing_key.txt'' s0")
  obtain r2 w2 where s2: "getPrivateKey c ''/keys/address.txt'' w1 = (r2, w2)"
    by (cases "getPrivateKey c ''/keys/address.txt'' w1")
  obtain r3 w3 where s3: "ImportRawKey c (projr r2) [] w2 = (r3, w3)"
    by (cases "ImportRawKey c (projr r2) [] w2")
  obtain r4 w4 where s4: "UnlockAccount c a [] 0 w3 = (r4, w4)"
    by (cases "UnlockAccount c a [] 0 w3")
  obtain r5 w5 where s5:
    "SendReactivateValidatorTransaction c a a (projr r1) 500 ''+0'' w4 = (r5, w5)"
    by (cases "SendReactivateValidatorTransaction c a a (projr r1) 500 ''+0'' w4")
  have t1: "trace w1 = trace w @ [Call ''reActivateValidator'' a,
              ReadFile ''/keys/signing_key.txt'']" "registry w1 = registry w"
    unfolding snd_eqD[OF s1] by (simp_all add: step_snd emit_def s0_def)
  have t2: "trace w2 = trace w1 @ [ReadFile ''/keys/address.txt'']" "registry w2 = registry w1"
    unfolding snd_eqD[OF s2] by (simp_all add: step_snd emit_def)
  have t3: "trace w3 = trace w2 @ [Rpc ''importRawKey'' [PStr (projr r2), PStr []]]"
    "registry w3 = registry w2"
    unfolding snd_eqD[OF s3] by (simp_all add: step_snd emit_def)
  have t4: "trace w4 = trace w3 @ [Rpc ''unlockAccount'' [PStr a, PStr [], PInt 0]]"
    "registry w4 = registry w3"
    unfolding snd_eqD[OF s4] by (simp_all add: step_snd emit_def)
  have t5: "trace w5 = trace w4 @ [Rpc ''sendReactivateValidatorTransaction''
             [PStr a, PStr a, PStr (projr r1), PInt 500, PStr ''+0'']]"
    "registry w5 = registry w4"
    unfolding snd_eqD[OF s5] by (simp_all add: step_snd emit_def)
  have res: "reActivateValidator c a w =
      (if isl r1 then (False, w1) else if isl r2 then (False, w2)
       else if isl r3 then (False, w3) else if isl r4 then (False, w4)
       else if isl r5 then (False, w5)
       else (True,
           publish (ValidatorReActivatedCounterGauge_update (\<lambda>g. gauge_Inc g a)) w5))"
    unfolding reActivateValidator_def s0_def[symmetric]
    using s1 s2 s3 s4 s5
    apply (cases r1; simp)
    apply (cases r2; simp)
    apply (cases r3; simp)
    apply (cases r4; simp)
    apply (cases r5; simp)
    done
  show ?thesis
    unfolding res by (simp add: publish_def t1 t2 t3 t4 t5)
qed

subsection \<open>checkAndHandleValidatorStatus\<close>

lemma updateValidatorMetrics_frame:
  "trace (updateValidatorMetrics a d w) = trace w"
  "outside (updateValidatorMetrics a d w) = outside w"
  "ValidatorActivatedGauge (registry (updateValidatorMetrics a d w)) =
     (ValidatorActivatedGauge (registry w))(a \<mapsto> 1)"
  by (simp_all add: updateValidatorMetrics_def publish_def gauge_Set_def Let_def)

lemma GetValidatorByAddress_eq:
  "getValidatorByAddress c a (outside w) = (r, n) \<Longrightarrow>
   GetValidatorByAddress c a w =
     (r, w\<lparr>outside := n, trace := trace w @ [Rpc ''getValidatorByAddress'' [PStr a]]\<rparr>)"
  by (simp add: GetValidatorByAddress_def request_def emit_def)

lemma GetCurrentBlockNumber_eq:
  "getBlockNumber c (outside w) = (r, n) \<Longrightarrow>
   GetCurrentBlockNumber c w =
     (r, w\<lparr>outside := n, trace := trace w @ [Rpc ''getBlockNumber'' []]\<rparr>)"
  by (simp add: GetCurrentBlockNumber_def request_def emit_def)

text \<open>
  C4. When the fetch returns a record with the retired flag set, with or without a
  jail marker, the evaluation returns false, and the entries into
  \<open>activateValidator\<close> and \<open>reActivateValidator\<close> during the evaluation are
  exactly one entry into \<open>reActivateValidator\<close> for the address: Reactivate is
  attempted, Activate is not.
\<close>

theorem retired_record_reactivates:
  assumes "getValidatorByAddress c address (outside w) = (Inr (Some details), n)"
    and "Retired details"
  shows "fst (checkAndHandleValidatorStatus c address w) = Returned False \<and>
         calls (emitted w (snd (checkAndHandleValidatorStatus c address w))) =
           [(''reActivateValidator'', address)]"
proof -
  define w2 where "w2 = updateValidatorMetrics address details
     (w\<lparr>outside := n, trace := trace w @ [Rpc ''getValidatorByAddress'' [PStr address]]\<rparr>)"
  have res: "checkAndHandleValidatorStatus c address w =
               (Returned False, snd (reActivateValidator c address w2))"
    using assms
    by (simp add: checkAndHandleValidatorStatus_def GetValidatorByAddress_eq[OF assms(1)]
        w2_def Let_def split: prod.splits)
  obtain es where es: "trace (snd (reActivateValidator c address w2)) =
      trace w2 @ Call ''reActivateValidator'' address # es" "calls es = []"
    using reActivateValidator_effect[of c address w2] by blast
  have tw2: "trace w2 = trace w @ [Rpc ''getValidatorByAddress'' [PStr address]]"
    by (simp add: w2_def updateValidatorMetrics_frame)
  show ?thesis
    by (simp add: res emitted_def es tw2)
qed

theorem retired_record_reactivates_witness:
  "fst (checkAndHandleValidatorStatus (fixedEnv (Inr (Some retiredRecord)) (Inr 5000) (Inr 0))
          ''NQ00'' startWorld) = Returned False \<and>
   calls (emitted startWorld
            (snd (checkAndHandleValidatorStatus
                    (fixedEnv (Inr (Some retiredRecord)) (Inr 5000) (Inr 0)) ''NQ00'' startWorld))) =
     [(''reActivateValidator'', ''NQ00'')]"
proof -
  have h1: "getValidatorByAddress (fixedEnv (Inr (Some retiredRecord)) (Inr 5000) (Inr 0)) ''NQ00''
              (outside startWorld) = (Inr (Some retiredRecord), ())"
    by (simp add: fixedEnv_def)
  have h2: "Retired retiredRecord"
    by (simp add: retiredRecord_def)
  show ?thesis
    by (rule retired_record_reactivates[OF h1 h2])
qed

text \<open>
  C9, as amended. Whenever the fetch returns a record, the activated gauge of the
  address is 1 after the evaluation, whatever the record says: the witness is a
  record that is retired and carries a jail marker.
\<close>

theorem activated_gauge_set_on_record:
  assumes "getValidatorByAddress c address (outside w) = (Inr (Some details), n)"
  shows "ValidatorActivatedGauge
           (registry (snd (checkAndHandleValidatorStatus c address w))) address = Some 1"
proof -
  define w2 where "w2 = updateValidatorMetrics address details
     (w\<lparr>outside := n, trace := trace w @ [Rpc ''getValidatorByAddress'' [PStr address]]\<rparr>)"
  have g2: "ValidatorActivatedGauge (registry w2) address = Some 1"
    by (simp add: w2_def updateValidatorMetrics_frame)
  show ?thesis
  proof (cases "Retired details")
    case True
    have res: "checkAndHandleValidatorStatus c address w =
                 (Returned False, snd (reActivateValidator c address w2))"
      using True
      by (simp add: checkAndHandleValidatorStatus_def GetValidatorByAddress_eq[OF assms]
          w2_def Let_def split: prod.splits)
    show ?thesis
      unfolding res using g2 reActivateValidator_effect[of c address w2]
      by (simp split: if_splits)
  next
    case False
    obtain rb n' where b: "getBlockNumber c (outside w2) = (rb, n')"
      by (cases "getBlockNumber c (outside w2)")
    show ?thesis
      using False g2
      by (cases rb; cases "JailedFrom details")
         (simp_all add: checkAndHandleValidatorStatus_def GetValidatorByAddress_eq[OF assms]
          w2_def[symmetric] Let_def GetCurrentBlockNumber_eq[OF b] publish_def)
  qed
qed

theorem activated_gauge_set_on_record_witness:
  "JailedFrom retiredRecord = Some 100 \<and> Retired retiredRecord \<and>
   ValidatorActivatedGauge
     (registry (snd (checkAndHandleValidatorStatus
                       (fixedEnv (Inr (Some retiredRecord)) (Inr 5000) (Inr 0))
                       ''NQ00'' startWorld))) ''NQ00'' = Some 1"
proof -
  have h1: "getValidatorByAddress (fixedEnv (Inr (Some retiredRecord)) (Inr 5000) (Inr 0)) ''NQ00''
              (outside startWorld) = (Inr (Some retiredRecord), ())"
    by (simp add: fixedEnv_def)
  show ?thesis
    using activated_gauge_set_on_record[OF h1]
    by (simp add: retiredRecord_def jailedRecord_def)
qed

text \<open>
  C9 as stated fails on a reply with neither error nor record: the fetch succeeds
  (the client returns no error), and the evaluation panics in
  \<open>updateValidatorMetrics\<close> before the activated gauge is set. The gauge keeps
  the 0 that \<open>main\<close> gave it at start; the one trace of the call in the registry
  is the new child of the total-stake gauge.
\<close>

theorem null_record_activated_not_set:
  "fst (GetValidatorByAddress (fixedEnv (Inr None) (Inr 5000) (Inr 0)) ''NQ00'' bootWorld) =
     Inr None \<and>
   fst (checkAndHandleValidatorStatus (fixedEnv (Inr None) (Inr 5000) (Inr 0))
          ''NQ00'' bootWorld) = Panicked \<and>
   ValidatorActivatedGauge
     (registry (snd (checkAndHandleValidatorStatus (fixedEnv (Inr None) (Inr 5000) (Inr 0))
                       ''NQ00'' bootWorld))) ''NQ00'' = Some 0 \<and>
   NimiqTotalStakeGauge
     (registry (snd (checkAndHandleValidatorStatus (fixedEnv (Inr None) (Inr 5000) (Inr 0))
                       ''NQ00'' bootWorld))) ''NQ00'' = Some 0"
  by code_simp

text \<open>
  C10, as amended. The result of the evaluation depends on the answer to the record
  fetch, on the retired flag and on whether the block-number query fails, and on
  nothing else: not on what \<open>activateValidator\<close> or \<open>reActivateValidator\<close>
  returned, and not on the jail marker. It is false when the fetch returns an error,
  when the record is retired, and when the block-number query fails; it is true for
  every other record. When the reply has neither an error nor a record, the
  evaluation returns nothing: \<open>updateValidatorMetrics\<close> dereferences the nil
  record.
\<close>

theorem checkAndHandle_result:
  "fst (checkAndHandleValidatorStatus c address w) =
     (case getValidatorByAddress c address (outside w) of
        (Inl err, n) \<Rightarrow> Returned False
      | (Inr None, n) \<Rightarrow> Panicked
      | (Inr (Some details), n) \<Rightarrow>
          Returned (\<not> Retired details \<and> \<not> isl (fst (getBlockNumber c n))))"
proof (cases "getValidatorByAddress c address (outside w)")
  case (Pair r n)
  show ?thesis
  proof (cases r)
    case (Inl err)
    then show ?thesis using Pair
      by (simp add: checkAndHandleValidatorStatus_def GetValidatorByAddress_eq[OF Pair]
          split: prod.splits)
  next
    case (Inr v)
    show ?thesis
    proof (cases v)
      case None
      then show ?thesis using Pair Inr
        by (simp add: checkAndHandleValidatorStatus_def GetValidatorByAddress_eq[OF Pair])
    next
      case (Some details)
      define w2 where "w2 = updateValidatorMetrics address details
        (w\<lparr>outside := n, trace := trace w @ [Rpc ''getValidatorByAddress'' [PStr address]]\<rparr>)"
      have o2: "outside w2 = n" by (simp add: w2_def updateValidatorMetrics_frame)
      obtain rb n' where b: "getBlockNumber c (outside w2) = (rb, n')"
        by (cases "getBlockNumber c (outside w2)")
      have b': "fst (getBlockNumber c n) = rb" using b o2 by simp
      show ?thesis
        using Pair Inr Some b'
        by (cases rb)
           (simp_all add: checkAndHandleValidatorStatus_def GetValidatorByAddress_eq[OF Pair]
            w2_def[symmetric] Let_def GetCurrentBlockNumber_eq[OF b] split: prod.splits)
    qed
  qed
qed

theorem checkAndHandle_result_witness:
  "JailedFrom jailedRecord = Some 100 \<and>
   fst (checkAndHandleValidatorStatus (fixedEnv (Inr (Some jailedRecord)) (Inr 5000) (Inr 0))
          ''NQ00'' startWorld) = Returned True \<and>
   fst (checkAndHandleValidatorStatus (fixedEnv (Inl (Err ''not found'')) (Inr 5000) (Inr 0))
          ''NQ00'' startWorld) = Returned False"
  using checkAndHandle_result
          [of "fixedEnv (Inr (Some jailedRecord)) (Inr 5000) (Inr 0)" "''NQ00''" startWorld]
        checkAndHandle_result
          [of "fixedEnv (Inl (Err ''not found'')) (Inr 5000) (Inr 0)" "''NQ00''" startWorld]
  by (simp add: fixedEnv_def jailedRecord_def)

text \<open>
  C10 as stated fails on a reply with neither error nor record: the fetch has not
  failed, no retired flag is set, the block-number query would succeed, and the
  evaluation returns neither true nor false.
\<close>

theorem null_record_panics:
  "fst (getValidatorByAddress (fixedEnv (Inr None) (Inr 5000) (Inr 0)) ''NQ00''
          (outside startWorld)) = Inr None \<and>
   fst (getBlockNumber (fixedEnv (Inr None) (Inr 5000) (Inr 0)) (outside startWorld)) = Inr 5000 \<and>
   fst (checkAndHandleValidatorStatus (fixedEnv (Inr None) (Inr 5000) (Inr 0))
          ''NQ00'' startWorld) = Panicked"
  by (simp add: fixedEnv_def checkAndHandleValidatorStatus_def GetValidatorByAddress_def
      request_def)

text \<open>
  C1 at a record with \<open>jailedFrom = 100\<close>, not retired, and current block 5000
  (4900 blocks since jailing, inside the window of 8000): the branch for a
  validator still in jail sets the jailed gauge to 1 and the jailed-from gauge to
  100, and the two unconditional \<open>Set(0)\<close> that follow the jail check overwrite
  both. The values left are 0 and 0, and the evaluation returns true.
\<close>

theorem jailed_gauges_overwritten:
  "JailedFrom jailedRecord = Some 100 \<and> \<not> Retired jailedRecord \<and>
   (5000 - 100 :: int64) <s blocksForReactivation \<and>
   fst (checkAndHandleValidatorStatus (fixedEnv (Inr (Some jailedRecord)) (Inr 5000) (Inr 0))
          ''NQ00'' startWorld) = Returned True \<and>
   ValidatorJailedGauge
     (registry (snd (checkAndHandleValidatorStatus
                       (fixedEnv (Inr (Some jailedRecord)) (Inr 5000) (Inr 0))
                       ''NQ00'' startWorld))) ''NQ00'' = Some 0 \<and>
   ValidatorJailedFromGauge
     (registry (snd (checkAndHandleValidatorStatus
                       (fixedEnv (Inr (Some jailedRecord)) (Inr 5000) (Inr 0))
                       ''NQ00'' startWorld))) ''NQ00'' = Some 0 \<and>
   calls (trace (snd (checkAndHandleValidatorStatus
                        (fixedEnv (Inr (Some jailedRecord)) (Inr 5000) (Inr 0))
                        ''NQ00'' startWorld))) = []"
  by code_simp

text \<open>
  The same for every record that is not retired, when the block-number query
  succeeds: both gauges end at 0, inside the window and outside.
\<close>

lemma jail_gauges_after_evaluation:
  assumes "getValidatorByAddress c address (outside w) = (Inr (Some details), n1)"
    and "getBlockNumber c n1 = (Inr currentBlockNumber, n2)"
    and "\<not> Retired details"
  shows "ValidatorJailedGauge
           (registry (snd (checkAndHandleValidatorStatus c address w))) address = Some 0 \<and>
         ValidatorJailedFromGauge
           (registry (snd (checkAndHandleValidatorStatus c address w))) address = Some 0"
proof -
  define w2 where "w2 = updateValidatorMetrics address details
     (w\<lparr>outside := n1, trace := trace w @ [Rpc ''getValidatorByAddress'' [PStr address]]\<rparr>)"
  have b: "getBlockNumber c (outside w2) = (Inr currentBlockNumber, n2)"
    using assms(2) by (simp add: w2_def updateValidatorMetrics_frame)
  show ?thesis
    using assms(3)
    by (cases "JailedFrom details")
       (simp_all add: checkAndHandleValidatorStatus_def GetValidatorByAddress_eq[OF assms(1)]
          w2_def[symmetric] Let_def GetCurrentBlockNumber_eq[OF b] publish_def gauge_Set_def)
qed


lemma healthy_evaluation:
  assumes v: "getValidatorByAddress c address (outside w) = (Inr (Some details), n1)"
    and b: "getBlockNumber c n1 = (rb, n2)"
    and ok: "\<not> Retired details" "JailedFrom details = None"
  shows "checkAndHandleValidatorStatus c address w =
     (Returned (\<not> isl rb),
      (if isl rb then (\<lambda>x. x)
       else publish (ValidatorJailedFromGauge_update (\<lambda>g. gauge_Set g address 0)) \<circ>
            publish (ValidatorJailedGauge_update (\<lambda>g. gauge_Set g address 0)))
        ((updateValidatorMetrics address details w)
           \<lparr>outside := n2,
            trace := trace w @ [Rpc ''getValidatorByAddress'' [PStr address],
                                Rpc ''getBlockNumber'' []]\<rparr>))"
proof -
  define w2 where "w2 = updateValidatorMetrics address details
     (w\<lparr>outside := n1, trace := trace w @ [Rpc ''getValidatorByAddress'' [PStr address]]\<rparr>)"
  have b': "getBlockNumber c (outside w2) = (rb, n2)"
    using b by (simp add: w2_def updateValidatorMetrics_frame)
  have e: "w2\<lparr>outside := n2, trace := trace w2 @ [Rpc ''getBlockNumber'' []]\<rparr> =
     (updateValidatorMetrics address details w)
           \<lparr>outside := n2,
            trace := trace w @ [Rpc ''getValidatorByAddress'' [PStr address],
                                Rpc ''getBlockNumber'' []]\<rparr>"
    by (simp add: w2_def updateValidatorMetrics_def publish_def Let_def)
  show ?thesis
    using ok
    by (cases rb)
       (simp_all add: checkAndHandleValidatorStatus_def GetValidatorByAddress_eq[OF v]
          w2_def[symmetric] Let_def GetCurrentBlockNumber_eq[OF b'] e)
qed

text \<open>
  C8, as amended. Two evaluations in a row that fetch the same record, not retired
  and without jail marker, where the block-number query of the second evaluation
  fails if that of the first failed. Then the registry after the second evaluation is
  the registry after the first, and neither evaluation enters \<open>activateValidator\<close>
  or \<open>reActivateValidator\<close>. Each evaluation returns whether its block-number
  query succeeded.
\<close>

theorem steady_state_idempotent:
  assumes v1: "getValidatorByAddress c address (outside w) = (Inr (Some details), n1)"
    and b1: "getBlockNumber c n1 = (rb1, n2)"
    and v2: "getValidatorByAddress c address n2 = (Inr (Some details), n3)"
    and b2: "getBlockNumber c n3 = (rb2, n4)"
    and same: "isl rb1 \<longrightarrow> isl rb2"
    and ok: "\<not> Retired details" "JailedFrom details = None"
  shows "registry (snd (checkAndHandleValidatorStatus c address
                          (snd (checkAndHandleValidatorStatus c address w)))) =
           registry (snd (checkAndHandleValidatorStatus c address w)) \<and>
         fst (checkAndHandleValidatorStatus c address w) = Returned (\<not> isl rb1) \<and>
         fst (checkAndHandleValidatorStatus c address
                (snd (checkAndHandleValidatorStatus c address w))) = Returned (\<not> isl rb2) \<and>
         calls (emitted (snd (checkAndHandleValidatorStatus c address w))
                  (snd (checkAndHandleValidatorStatus c address
                          (snd (checkAndHandleValidatorStatus c address w))))) = [] \<and>
         calls (emitted w (snd (checkAndHandleValidatorStatus c address w))) = []"
proof -
  note first = healthy_evaluation[OF v1 b1 ok]
  define w1 where "w1 = snd (checkAndHandleValidatorStatus c address w)"
  have o1: "outside w1 = n2"
    unfolding w1_def first by (cases "isl rb1") (simp_all add: publish_def)
  note second = healthy_evaluation[of c address w1, unfolded o1, OF v2 b2 ok]
  have t1: "trace w1 = trace w @ [Rpc ''getValidatorByAddress'' [PStr address],
                                  Rpc ''getBlockNumber'' []]"
    unfolding w1_def first
    by (cases "isl rb1") (simp_all add: publish_def updateValidatorMetrics_frame)
  have r1: "registry w1 =
      (if isl rb1 then registry (updateValidatorMetrics address details w)
       else (registry (updateValidatorMetrics address details w))
              \<lparr>ValidatorJailedGauge :=
                 (ValidatorJailedGauge (registry (updateValidatorMetrics address details w)))
                   (address \<mapsto> 0),
               ValidatorJailedFromGauge :=
                 (ValidatorJailedFromGauge (registry (updateValidatorMetrics address details w)))
                   (address \<mapsto> 0)\<rparr>)"
    unfolding w1_def first by (cases "isl rb1") (simp_all add: publish_def gauge_Set_def)
  have reg: "registry (snd (checkAndHandleValidatorStatus c address w1)) = registry w1"
    unfolding second using same ok(2)
    by (cases "isl rb1"; cases "isl rb2")
       (simp_all add: r1 publish_def gauge_Set_def updateValidatorMetrics_def Let_def)
  have res1: "fst (checkAndHandleValidatorStatus c address w) = Returned (\<not> isl rb1)"
    unfolding first by simp
  have res2: "fst (checkAndHandleValidatorStatus c address w1) = Returned (\<not> isl rb2)"
    unfolding second by simp
  have c2: "calls (emitted w1 (snd (checkAndHandleValidatorStatus c address w1))) = []"
    unfolding second
    by (cases "isl rb2") (simp_all add: emitted_def publish_def updateValidatorMetrics_frame)
  have c1: "calls (emitted w w1) = []"
    by (simp add: emitted_def t1)
  show ?thesis
    unfolding w1_def[symmetric] using reg res1 res2 c2 c1 by simp
qed


theorem steady_state_idempotent_witness:
  "registry (snd (checkAndHandleValidatorStatus
                    (fixedEnv (Inr (Some activeRecord)) (Inr 5000) (Inr 0)) ''NQ00''
                    (snd (checkAndHandleValidatorStatus
                            (fixedEnv (Inr (Some activeRecord)) (Inr 5000) (Inr 0))
                            ''NQ00'' startWorld)))) =
     registry (snd (checkAndHandleValidatorStatus
                      (fixedEnv (Inr (Some activeRecord)) (Inr 5000) (Inr 0))
                      ''NQ00'' startWorld)) \<and>
   fst (checkAndHandleValidatorStatus
          (fixedEnv (Inr (Some activeRecord)) (Inr 5000) (Inr 0)) ''NQ00'' startWorld) =
     Returned True \<and>
   fst (checkAndHandleValidatorStatus
          (fixedEnv (Inr (Some activeRecord)) (Inr 5000) (Inr 0)) ''NQ00''
          (snd (checkAndHandleValidatorStatus
                  (fixedEnv (Inr (Some activeRecord)) (Inr 5000) (Inr 0))
                  ''NQ00'' startWorld))) = Returned True \<and>
   calls (emitted
            (snd (checkAndHandleValidatorStatus
                    (fixedEnv (Inr (Some activeRecord)) (Inr 5000) (Inr 0))
                    ''NQ00'' startWorld))
            (snd (checkAndHandleValidatorStatus
                    (fixedEnv (Inr (Some activeRecord)) (Inr 5000) (Inr 0)) ''NQ00''
                    (snd (checkAndHandleValidatorStatus
                            (fixedEnv (Inr (Some activeRecord)) (Inr 5000) (Inr 0))
                            ''NQ00'' startWorld))))) = [] \<and>
   calls (emitted startWorld
            (snd (checkAndHandleValidatorStatus
                    (fixedEnv (Inr (Some activeRecord)) (Inr 5000) (Inr 0))
                    ''NQ00'' startWorld))) = []"
proof -
  let ?c = "fixedEnv (Inr (Some activeRecord)) (Inr 5000) (Inr 0)"
  have v1: "getValidatorByAddress ?c ''NQ00'' (outside startWorld) = (Inr (Some activeRecord), ())"
    by (simp add: fixedEnv_def)
  have b: "getBlockNumber ?c () = (Inr 5000, ())"
    by (simp add: fixedEnv_def)
  have v2: "getValidatorByAddress ?c ''NQ00'' () = (Inr (Some activeRecord), ())"
    by (simp add: fixedEnv_def)
  have same: "isl (Inr 5000 :: error + int64) \<longrightarrow> isl (Inr 5000 :: error + int64)"
    by simp
  have ok: "\<not> Retired activeRecord" "JailedFrom activeRecord = None"
    by (simp_all add: activeRecord_def jailedRecord_def)
  show ?thesis
    using steady_state_idempotent[OF v1 b v2 b same ok] by simp
qed

text \<open>
  C8 as stated fails when the block-number query fails in the first evaluation and
  succeeds in the second. Both evaluations fetch the same record, not retired and
  without jail marker; the first returns at the failed query, before the jailed
  gauges are written, and the second writes them. The jailed gauge has no value
  after the first evaluation and the value 0 after the second, and the results are
  false and true.
\<close>

theorem block_query_recovery_changes_metrics:
  "\<not> Retired activeRecord \<and> JailedFrom activeRecord = None \<and>
   fst (GetValidatorByAddress (flakyEnv activeRecord 5000) ''NQ00'' flakyStart) =
     Inr (Some activeRecord) \<and>
   fst (GetValidatorByAddress (flakyEnv activeRecord 5000) ''NQ00''
          (snd (checkAndHandleValidatorStatus (flakyEnv activeRecord 5000) ''NQ00'' flakyStart))) =
     Inr (Some activeRecord) \<and>
   fst (checkAndHandleValidatorStatus (flakyEnv activeRecord 5000) ''NQ00'' flakyStart) =
     Returned False \<and>
   fst (checkAndHandleValidatorStatus (flakyEnv activeRecord 5000) ''NQ00''
          (snd (checkAndHandleValidatorStatus (flakyEnv activeRecord 5000) ''NQ00'' flakyStart))) =
     Returned True \<and>
   ValidatorJailedGauge
     (registry (snd (checkAndHandleValidatorStatus (flakyEnv activeRecord 5000) ''NQ00''
                       flakyStart))) ''NQ00'' = None \<and>
   ValidatorJailedGauge
     (registry (snd (checkAndHandleValidatorStatus (flakyEnv activeRecord 5000) ''NQ00''
        (snd (checkAndHandleValidatorStatus (flakyEnv activeRecord 5000) ''NQ00''
                flakyStart))))) ''NQ00'' = Some 0"
  by code_simp

subsection \<open>The ticks\<close>

text \<open>
  A tick of the loop of \<open>main\<close> reads the balance only after the lifecycle
  evaluation: when the record fetch returns an error, the tick enters
  \<open>activateValidator\<close> once, whatever the balance is.
\<close>

lemma main_tick_unregistered:
  assumes "getValidatorByAddress c a (outside (updateEpochNumberGauge c w)) = (Inl err, n)"
  shows "calls (emitted w (snd (main_tick c a w))) = [(''activateValidator'', a)]"
proof -
  define w0 where "w0 = updateEpochNumberGauge c w"
  define wA where "wA =
    w0\<lparr>outside := n, trace := trace w0 @ [Rpc ''getValidatorByAddress'' [PStr a]]\<rparr>"
  have t0: "trace w0 = trace w @ [Rpc ''getEpochNumber'' []]"
    by (simp add: w0_def updateEpochNumberGauge_def GetEpochNumber_def request_def emit_def
        publish_def split: prod.splits sum.splits)
  have ev: "checkAndHandleValidatorStatus c a w0 =
              (Returned False, snd (activateValidator c a wA))"
    using assms
    by (simp add: checkAndHandleValidatorStatus_def
        GetValidatorByAddress_eq[OF assms[folded w0_def]] wA_def split: prod.splits)
  obtain es where es: "trace (snd (activateValidator c a wA)) =
      trace wA @ Call ''activateValidator'' a # es" "calls es = []"
    using activateValidator_effect[of c a wA] by blast
  have tb: "\<And>w'. trace (snd (checkSufficientBalance c a w')) =
      trace w' @ [Rpc ''getAccountByAddress'' [PStr a]]"
    by (simp add: checkSufficientBalance_def GetAccountBalanceByAddress_def request_def
        emit_def publish_def Let_def split: prod.splits sum.splits)
  have tA: "trace wA = trace w @ [Rpc ''getEpochNumber'' [],
                                 Rpc ''getValidatorByAddress'' [PStr a]]"
    by (simp add: wA_def t0)
  have mt: "main_tick c a w =
      (Returned False, snd (checkSufficientBalance c a (snd (activateValidator c a wA))))"
    by (simp add: main_tick_def w0_def[symmetric] ev split: prod.splits)
  have "trace (snd (main_tick c a w)) =
      trace w @ [Rpc ''getEpochNumber'' [], Rpc ''getValidatorByAddress'' [PStr a]] @
      Call ''activateValidator'' a # es @ [Rpc ''getAccountByAddress'' [PStr a]]"
    unfolding mt snd_conv tb es(1) tA by simp
  then show ?thesis
    by (simp add: emitted_def es(2))
qed

text \<open>
  The gated path. A tick of the loop of \<open>periodicUpdates\<close> in which the balance
  fetched is strictly below 10,000,000,000 of the smallest unit and the record fetch
  returns an error stays in the loop, sends the two queries, posts to the faucet
  when the network is \<open>testnet\<close>, and does nothing else: it does not run the
  lifecycle evaluation and does not enter \<open>activateValidator\<close>.
\<close>

lemma underfunded_tick_waits:
  assumes bal: "getAccountByAddress c address (outside w) = (Inr balance, n1)"
    and low: "sint balance < 10000000000"
    and rec: "getValidatorByAddress c address n1 = (Inl err, n2)"
  shows "fst (periodicUpdates_tick cfg c address w) = Returned False \<and>
         emitted w (snd (periodicUpdates_tick cfg c address w)) =
           [Rpc ''getAccountByAddress'' [PStr address],
            Rpc ''getValidatorByAddress'' [PStr address]] @
           (if network cfg = ''testnet'' then [PostForm (faucetURL cfg) address] else []) \<and>
         calls (emitted w (snd (periodicUpdates_tick cfg c address w))) = []"
proof -
  define w1 where "w1 =
     publish (ValidatorBalanceGauge_update
                (\<lambda>g. gauge_Set g address (f64_of_int (sint balance))))
       (w\<lparr>outside := n1, trace := trace w @ [Rpc ''getAccountByAddress'' [PStr address]]\<rparr>)"
  define w2 where "w2 =
     w1\<lparr>outside := n2, trace := trace w1 @ [Rpc ''getValidatorByAddress'' [PStr address]]\<rparr>"
  have insufficient: "\<not> 100000 \<le> f64_div (f64_of_int (sint balance)) 100000"
    using low by (simp add: sufficient_iff)
  have s1: "checkSufficientBalance c address w =
              ((False, f64_div (f64_of_int (sint balance)) 100000), w1)"
    using bal insufficient
    by (simp add: checkSufficientBalance_def GetAccountBalanceByAddress_def request_def
        emit_def publish_def Let_def w1_def)
  have o1: "outside w1 = n1" by (simp add: w1_def publish_def)
  have s2: "checkActive c address w1 = (Returned False, w2)"
    using rec
    by (simp add: checkActive_def GetValidatorByAddress_eq[of c address w1, unfolded o1, OF rec]
        w2_def)
  have t2: "trace w2 = trace w @ [Rpc ''getAccountByAddress'' [PStr address],
                                  Rpc ''getValidatorByAddress'' [PStr address]]"
    by (simp add: w2_def w1_def publish_def)
  have tick: "periodicUpdates_tick cfg c address w =
      (if network cfg = ''testnet''
       then (Returned False, snd (fundAddress cfg c address w2))
       else (Returned False, w2))"
    by (simp add: periodicUpdates_tick_def s1 s2 split: prod.splits)
  have f: "trace (snd (fundAddress cfg c address w2)) =
             trace w2 @ [PostForm (faucetURL cfg) address]"
    by (simp add: fundAddress_def request_def emit_def split: prod.splits sum.splits)
  show ?thesis
    by (simp add: tick emitted_def f t2)
qed

lemma underfunded_tick_waits_example:
  "fst (periodicUpdates_tick \<lparr>faucetURL = ''https://faucet'', network = ''testnet''\<rparr>
          (fixedEnv (Inl (Err ''not found'')) (Inr 5000) (Inr 4000000000)) ''NQ00'' startWorld) =
     Returned False \<and>
   emitted startWorld
     (snd (periodicUpdates_tick \<lparr>faucetURL = ''https://faucet'', network = ''testnet''\<rparr>
             (fixedEnv (Inl (Err ''not found'')) (Inr 5000) (Inr 4000000000)) ''NQ00'' startWorld)) =
     [Rpc ''getAccountByAddress'' [PStr ''NQ00''],
      Rpc ''getValidatorByAddress'' [PStr ''NQ00''],
      PostForm ''https://faucet'' ''NQ00'']"
proof -
  let ?c = "fixedEnv (Inl (Err ''not found'')) (Inr 5000) (Inr 4000000000)"
  have bal: "getAccountByAddress ?c ''NQ00'' (outside startWorld) = (Inr 4000000000, ())"
    by (simp add: fixedEnv_def)
  have low: "sint (4000000000 :: int64) < 10000000000"
    by simp
  have rec: "getValidatorByAddress ?c ''NQ00'' () = (Inl (Err ''not found''), ())"
    by (simp add: fixedEnv_def)
  show ?thesis
    using underfunded_tick_waits[OF bal low rec,
        of "\<lparr>faucetURL = ''https://faucet'', network = ''testnet''\<rparr>"]
    by simp
qed

text \<open>
  C2 on a tick of the loop of \<open>main\<close>: the record fetch returns an error, the
  balance is 0, and the tick enters \<open>activateValidator\<close>.
  \<open>checkAndHandleValidatorStatus\<close> activates on every failed fetch, and the loop
  of \<open>main\<close> calls it before it reads the balance, without the balance gate that
  the start-up path and \<open>periodicUpdates\<close> put in front of it.
\<close>

theorem main_tick_activates_underfunded:
  "fst (getValidatorByAddress (fixedEnv (Inl (Err ''not found'')) (Inr 5000) (Inr 0)) ''NQ00'' ()) =
     Inl (Err ''not found'') \<and>
   fst (getAccountByAddress (fixedEnv (Inl (Err ''not found'')) (Inr 5000) (Inr 0)) ''NQ00'' ()) =
     Inr 0 \<and>
   sint (0 :: int64) < 10000000000 \<and>
   calls (emitted startWorld
            (snd (main_tick (fixedEnv (Inl (Err ''not found'')) (Inr 5000) (Inr 0))
                    ''NQ00'' startWorld))) = [(''activateValidator'', ''NQ00'')]"
proof -
  let ?c = "fixedEnv (Inl (Err ''not found'')) (Inr 5000) (Inr 0)"
  have h: "getValidatorByAddress ?c ''NQ00'' (outside (updateEpochNumberGauge ?c startWorld)) =
             (Inl (Err ''not found''), ())"
    by (simp add: fixedEnv_def)
  have a: "fst (getValidatorByAddress ?c ''NQ00'' ()) = Inl (Err ''not found'')"
    by (simp add: fixedEnv_def)
  have b: "fst (getAccountByAddress ?c ''NQ00'' ()) = Inr 0"
    by (simp add: fixedEnv_def)
  have l: "sint (0 :: int64) < 10000000000"
    by simp
  show ?thesis
    using a b l main_tick_unregistered[OF h] by (intro conjI)
qed

end
